theory Spec2Isabelle
  imports Complex_Main "HOL-Library.Word"
begin

section \<open>JavaScript values used by the Worker\<close>

text \<open>
  The Worker of \<^verbatim>\<open>src/index.ts\<close> is TypeScript running on a JavaScript engine. A
  JavaScript string is a sequence of 16-bit code units; \<^verbatim>\<open>trim\<close>,
  \<^verbatim>\<open>split\<close>, \<^verbatim>\<open>encodeURIComponent\<close> and \<^verbatim>\<open>decodeURIComponent\<close> all work
  on code units, so a string is modelled as a list of 16-bit words. \<open>js\<close> writes an
  ASCII literal of the source as such a list.
\<close>

type_synonym code_unit = "16 word"
type_synonym jsstring = "code_unit list"

definition js :: "string \<Rightarrow> jsstring" where
  "js s = map (\<lambda>c. of_nat (of_char c)) s"

text \<open>
  \<^verbatim>\<open>String.prototype.trim\<close> removes the WhiteSpace and LineTerminator code points of
  ECMAScript from both ends: TAB, LF, VT, FF, CR, SP, NBSP, U+1680, U+2000..U+200A,
  U+2028, U+2029, U+202F, U+205F, U+3000 and U+FEFF. All of them are single code units.
\<close>

definition is_ws :: "code_unit \<Rightarrow> bool" where
  "is_ws c \<longleftrightarrow>
     c = 0x09 \<or> c = 0x0A \<or> c = 0x0B \<or> c = 0x0C \<or> c = 0x0D \<or> c = 0x20 \<or> c = 0xA0 \<or>
     c = 0x1680 \<or> (0x2000 \<le> c \<and> c \<le> 0x200A) \<or> c = 0x2028 \<or> c = 0x2029 \<or>
     c = 0x202F \<or> c = 0x205F \<or> c = 0x3000 \<or> c = 0xFEFF"

definition trim :: "jsstring \<Rightarrow> jsstring" where
  "trim s = rev (dropWhile is_ws (rev (dropWhile is_ws s)))"

text \<open>The exceptions of the engine that the handlers can meet.\<close>

datatype exn = TypeError | URIError | RangeError

text \<open>
  The values that \<^verbatim>\<open>request.json()\<close>, \<^verbatim>\<open>JSON.parse\<close> and the inference binding hand
  to the code (typed \<^verbatim>\<open>any\<close> in the source). An object is the list of its own
  properties, in the order in which the engine enumerates them. The only thing the
  handlers do with a number is to call \<^verbatim>\<open>toString()\<close> on it, so a number is given by
  the text that \<^verbatim>\<open>Number.prototype.toString\<close> returns for it: \<^verbatim>\<open>5\<close> is
  \<open>JNum (js ''5'')\<close>, \<^verbatim>\<open>1.5\<close> is \<open>JNum (js ''1.5'')\<close> and \<^verbatim>\<open>1e21\<close> is
  \<open>JNum (js ''1e+21'')\<close>. What is proved for every text holds for the texts of numbers.
\<close>

datatype jsval =
    JUndefined
  | JNull
  | JBool bool
  | JNum jsstring
  | JStr jsstring
  | JArr "jsval list"
  | JObj "(jsstring \<times> jsval) list"

text \<open>The decimal digits of a natural number: the property name of an array index.\<close>

fun digits :: "nat \<Rightarrow> jsstring" where
  "digits n = (if n < 10 then [0x30 + of_nat n] else digits (n div 10) @ [0x30 + of_nat (n mod 10)])"

declare digits.simps [simp del]

text \<open>\<^verbatim>\<open>Array.prototype.join\<close> on strings.\<close>

fun join :: "jsstring \<Rightarrow> jsstring list \<Rightarrow> jsstring" where
  "join sep [] = []"
| "join sep [x] = x"
| "join sep (x # y # ys) = x @ sep @ join sep (y # ys)"

text \<open>
  \<open>toString v\<close> is the method call \<^verbatim>\<open>v.toString()\<close>.
  \<^item> On \<^verbatim>\<open>undefined\<close> and \<^verbatim>\<open>null\<close> the property access itself throws a TypeError.
  \<^item> A string is returned as it is, a boolean is printed, a number gives its text.
  \<^item> An array joins its elements with a comma; \<^verbatim>\<open>undefined\<close> and \<^verbatim>\<open>null\<close>
    elements contribute the empty string, any other element its own string.
  \<^item> A plain object gives \<^verbatim>\<open>[object Object]\<close> through \<^verbatim>\<open>Object.prototype\<close>, unless
    it has an own property named \<^verbatim>\<open>toString\<close>: coming from JSON that property is not
    callable, and the call throws a TypeError.
\<close>

fun toString :: "jsval \<Rightarrow> exn + jsstring"
  and elems_toString :: "jsval list \<Rightarrow> exn + jsstring list" where
  "toString JUndefined = Inl TypeError"
| "toString JNull = Inl TypeError"
| "toString (JBool b) = Inr (if b then js ''true'' else js ''false'')"
| "toString (JNum text) = Inr text"
| "toString (JStr s) = Inr s"
| "toString (JArr xs) =
     (case elems_toString xs of Inl e \<Rightarrow> Inl e | Inr ss \<Rightarrow> Inr (join (js '','') ss))"
| "toString (JObj kvs) =
     (if js ''toString'' \<in> set (map fst kvs) then Inl TypeError else Inr (js ''[object Object]''))"
| "elems_toString [] = Inr []"
| "elems_toString (x # xs) =
     (case (if x = JUndefined \<or> x = JNull then Inr [] else toString x) of
        Inl e \<Rightarrow> Inl e
      | Inr s \<Rightarrow> (case elems_toString xs of Inl e \<Rightarrow> Inl e | Inr ss \<Rightarrow> Inr (s # ss)))"

text \<open>
  \<open>opt_get v k\<close> is the optional property access \<^verbatim>\<open>v?.k\<close> for a name \<open>k\<close> that no
  built-in prototype defines (\<^verbatim>\<open>message\<close>, \<^verbatim>\<open>response\<close>): \<^verbatim>\<open>undefined\<close> on
  \<^verbatim>\<open>undefined\<close> and \<^verbatim>\<open>null\<close>, the own property of an object, \<^verbatim>\<open>undefined\<close>
  everywhere else. \<open>nullish v d\<close> is \<^verbatim>\<open>v ?? d\<close>.
\<close>

fun opt_get :: "jsval \<Rightarrow> jsstring \<Rightarrow> jsval" where
  "opt_get (JObj kvs) k = (case map_of kvs k of Some v \<Rightarrow> v | None \<Rightarrow> JUndefined)"
| "opt_get _ k = JUndefined"

definition nullish :: "jsval \<Rightarrow> jsval \<Rightarrow> jsval" where
  "nullish v d = (if v = JUndefined \<or> v = JNull then d else v)"

text \<open>
  The expression \<^verbatim>\<open>(v?.k ?? "").toString().trim()\<close>, which both handlers apply to
  the request body (\<open>k\<close> is \<^verbatim>\<open>message\<close>) and the holder applies to the inference
  result (\<open>k\<close> is \<^verbatim>\<open>response\<close>).
\<close>

definition coerce_field :: "jsval \<Rightarrow> jsstring \<Rightarrow> exn + jsstring" where
  "coerce_field v k =
     (case toString (nullish (opt_get v k) (JStr [])) of
        Inl e \<Rightarrow> Inl e
      | Inr s \<Rightarrow> Inr (trim s))"

section \<open>\<^verbatim>\<open>encodeURIComponent\<close> and \<^verbatim>\<open>decodeURIComponent\<close>\<close>

text \<open>
  Both are the engine's (ECMAScript, operations \<^verbatim>\<open>Encode\<close> and \<^verbatim>\<open>Decode\<close>); they
  are written out because the cookie helpers depend on what they do to every code unit.
  The characters that \<^verbatim>\<open>encodeURIComponent\<close> leaves alone are the ASCII letters and
  digits and \<^verbatim>\<open>- _ . ! ~ * ' ( )\<close>.
\<close>

definition unescaped :: "code_unit \<Rightarrow> bool" where
  "unescaped c \<longleftrightarrow>
     (0x41 \<le> c \<and> c \<le> 0x5A) \<or> (0x61 \<le> c \<and> c \<le> 0x7A) \<or> (0x30 \<le> c \<and> c \<le> 0x39) \<or>
     c = 0x2D \<or> c = 0x5F \<or> c = 0x2E \<or> c = 0x21 \<or> c = 0x7E \<or> c = 0x2A \<or>
     c = 0x27 \<or> c = 0x28 \<or> c = 0x29"

definition is_lead :: "code_unit \<Rightarrow> bool" where
  "is_lead c \<longleftrightarrow> 0xD800 \<le> c \<and> c \<le> 0xDBFF"

definition is_trail :: "code_unit \<Rightarrow> bool" where
  "is_trail c \<longleftrightarrow> 0xDC00 \<le> c \<and> c \<le> 0xDFFF"

text \<open>
  \<^verbatim>\<open>CodePointAt\<close> at the head of a non-empty string: the code point, the number of
  code units it takes, and whether it is an unpaired surrogate.
\<close>

fun CodePointAt :: "code_unit \<Rightarrow> jsstring \<Rightarrow> nat \<times> nat \<times> bool" where
  "CodePointAt first rest =
     (if \<not> is_lead first \<and> \<not> is_trail first then (unat first, 1, False)
      else if is_trail first \<or> rest = [] then (unat first, 1, True)
      else if \<not> is_trail (hd rest) then (unat first, 1, True)
      else ((unat first - 0xD800) * 0x400 + (unat (hd rest) - 0xDC00) + 0x10000, 2, False))"

text \<open>The UTF-8 octets of a code point, and an octet as \<^verbatim>\<open>%XX\<close> in upper-case hex.\<close>

definition utf8 :: "nat \<Rightarrow> nat list" where
  "utf8 cp =
     (if cp < 0x80 then [cp]
      else if cp < 0x800 then [0xC0 + cp div 0x40, 0x80 + cp mod 0x40]
      else if cp < 0x10000 then
        [0xE0 + cp div 0x1000, 0x80 + cp div 0x40 mod 0x40, 0x80 + cp mod 0x40]
      else
        [0xF0 + cp div 0x40000, 0x80 + cp div 0x1000 mod 0x40, 0x80 + cp div 0x40 mod 0x40,
         0x80 + cp mod 0x40])"

definition hex_digit :: "nat \<Rightarrow> code_unit" where
  "hex_digit d = (if d < 10 then 0x30 + of_nat d else 0x37 + of_nat d)"

definition escape_octet :: "nat \<Rightarrow> jsstring" where
  "escape_octet b = [0x25, hex_digit (b div 16), hex_digit (b mod 16)]"

function Encode :: "jsstring \<Rightarrow> exn + jsstring" where
  "Encode [] = Inr []"
| "Encode (c # cs) =
     (if unescaped c then
        (case Encode cs of Inl e \<Rightarrow> Inl e | Inr r \<Rightarrow> Inr (c # r))
      else
        (case CodePointAt c cs of
           (cp, count, unpaired) \<Rightarrow>
             if unpaired then Inl URIError
             else (case Encode (drop (count - 1) cs) of
                     Inl e \<Rightarrow> Inl e
                   | Inr r \<Rightarrow> Inr (concat (map escape_octet (utf8 cp)) @ r))))"
  by pat_completeness auto
termination
  by (relation "measure length") auto

definition encodeURIComponent :: "jsstring \<Rightarrow> exn + jsstring" where
  "encodeURIComponent s = Encode s"

text \<open>
  \<^verbatim>\<open>Decode\<close>: a code unit other than \<^verbatim>\<open>%\<close> is copied; \<^verbatim>\<open>%XX\<close> is one octet
  \<open>B\<close>, and the number \<open>n\<close> of its leading 1 bits says how many octets the code
  point has. \<open>n = 0\<close> is the ASCII character itself, \<open>n = 1\<close> and \<open>n > 4\<close> are
  errors, otherwise \<open>n - 1\<close> further escapes follow and the octets must be a valid
  UTF-8 encoding: continuation octets of the form \<open>10xxxxxx\<close>, no overlong form, no
  surrogate and nothing beyond U+10FFFF.
\<close>

definition hex_value :: "code_unit \<Rightarrow> nat option" where
  "hex_value c =
     (if 0x30 \<le> c \<and> c \<le> 0x39 then Some (unat c - 0x30)
      else if 0x41 \<le> c \<and> c \<le> 0x46 then Some (unat c - 0x37)
      else if 0x61 \<le> c \<and> c \<le> 0x66 then Some (unat c - 0x57)
      else None)"

definition ParseHexOctet :: "code_unit \<Rightarrow> code_unit \<Rightarrow> nat option" where
  "ParseHexOctet h l =
     (case hex_value h of
        None \<Rightarrow> None
      | Some a \<Rightarrow> (case hex_value l of None \<Rightarrow> None | Some b \<Rightarrow> Some (16 * a + b)))"

definition leading_ones :: "nat \<Rightarrow> nat" where
  "leading_ones B =
     (if B < 0x80 then 0 else if B < 0xC0 then 1 else if B < 0xE0 then 2
      else if B < 0xF0 then 3 else if B < 0xF8 then 4 else 5)"

fun continuation_octets :: "nat \<Rightarrow> jsstring \<Rightarrow> (nat list \<times> jsstring) option" where
  "continuation_octets 0 s = Some ([], s)"
| "continuation_octets (Suc j) (p # h # l # rest) =
     (if p \<noteq> 0x25 then None
      else (case ParseHexOctet h l of
              None \<Rightarrow> None
            | Some b \<Rightarrow>
               (case continuation_octets j rest of
                  None \<Rightarrow> None
                | Some (bs, rest') \<Rightarrow> Some (b # bs, rest'))))"
| "continuation_octets (Suc j) _ = None"

definition is_cont :: "nat \<Rightarrow> bool" where
  "is_cont b \<longleftrightarrow> 0x80 \<le> b \<and> b < 0xC0"

fun utf8_value :: "nat list \<Rightarrow> nat option" where
  "utf8_value [b0, b1] =
     (let v = (b0 - 0xC0) * 0x40 + (b1 - 0x80)
      in if is_cont b1 \<and> 0x80 \<le> v then Some v else None)"
| "utf8_value [b0, b1, b2] =
     (let v = (b0 - 0xE0) * 0x1000 + (b1 - 0x80) * 0x40 + (b2 - 0x80)
      in if is_cont b1 \<and> is_cont b2 \<and> 0x800 \<le> v \<and> \<not> (0xD800 \<le> v \<and> v \<le> 0xDFFF)
         then Some v else None)"
| "utf8_value [b0, b1, b2, b3] =
     (let v = (b0 - 0xF0) * 0x40000 + (b1 - 0x80) * 0x1000 + (b2 - 0x80) * 0x40 + (b3 - 0x80)
      in if is_cont b1 \<and> is_cont b2 \<and> is_cont b3 \<and> 0x10000 \<le> v \<and> v \<le> 0x10FFFF
         then Some v else None)"
| "utf8_value _ = None"

definition UTF16EncodeCodePoint :: "nat \<Rightarrow> jsstring" where
  "UTF16EncodeCodePoint v =
     (if v \<le> 0xFFFF then [of_nat v]
      else [of_nat ((v - 0x10000) div 0x400 + 0xD800), of_nat ((v - 0x10000) mod 0x400 + 0xDC00)])"

function Decode :: "jsstring \<Rightarrow> exn + jsstring" where
  "Decode [] = Inr []"
| "Decode (c # cs) =
     (if c \<noteq> 0x25 then
        (case Decode cs of Inl e \<Rightarrow> Inl e | Inr r \<Rightarrow> Inr (c # r))
      else
        (case cs of
           h # l # rest \<Rightarrow>
             (case ParseHexOctet h l of
                None \<Rightarrow> Inl URIError
              | Some B \<Rightarrow>
                 let n = leading_ones B in
                 if n = 0 then
                   (case Decode rest of Inl e \<Rightarrow> Inl e | Inr r \<Rightarrow> Inr (of_nat B # r))
                 else if n = 1 \<or> n > 4 then Inl URIError
                 else
                   (case continuation_octets (n - 1) rest of
                      None \<Rightarrow> Inl URIError
                    | Some (bs, rest') \<Rightarrow>
                       (case utf8_value (B # bs) of
                          None \<Rightarrow> Inl URIError
                        | Some v \<Rightarrow>
                           (case Decode rest' of
                              Inl e \<Rightarrow> Inl e
                            | Inr r \<Rightarrow> Inr (UTF16EncodeCodePoint v @ r)))))
         | _ \<Rightarrow> Inl URIError))"
  by pat_completeness auto
termination
proof -
  have shorter: "length rest \<le> length s"
    if "continuation_octets j s = Some (bs, rest)" for j s bs rest
    using that
  proof (induction j s arbitrary: bs rest rule: continuation_octets.induct)
    case (2 j p h l rest0)
    then show ?case
      by (fastforce split: if_splits option.splits)
  qed simp_all
  show ?thesis
    by (relation "measure length") (auto dest: shorter)
qed

definition decodeURIComponent :: "jsstring \<Rightarrow> exn + jsstring" where
  "decodeURIComponent s = Decode s"

section \<open>Requests, responses and effects\<close>

text \<open>
  A request as the handlers read it: the method, the protocol and path of its URL, the
  \<^verbatim>\<open>Cookie\<close> header (\<open>None\<close> when \<^verbatim>\<open>headers.get\<close> returns \<^verbatim>\<open>null\<close>) and the value
  that \<^verbatim>\<open>request.json()\<close> resolves to (\<open>None\<close> when it rejects, the body not being
  valid JSON).
\<close>

record request =
  "method" :: jsstring
  protocol :: jsstring
  pathname :: jsstring
  cookie :: "jsstring option"
  json_body :: "jsval option"

text \<open>
  The body of a response: \<open>JsonBody v\<close> is the JSON text of \<open>v\<close> (\<^verbatim>\<open>Response.json(v)\<close>,
  \<^verbatim>\<open>JSON.stringify(v)\<close>), \<open>JsonError m e\<close> is the JSON text of
  \<^verbatim>\<open>{ error: m, details: String(e) }\<close> for a caught exception \<open>e\<close>, whose message text
  is the engine's, \<open>TextBody\<close> is plain text and \<open>HtmlPage\<close> the static page of
  \<^verbatim>\<open>htmlPage()\<close>.
\<close>

datatype resp_body =
    JsonBody jsval
  | JsonError jsstring exn
  | TextBody jsstring
  | HtmlPage

record response =
  status :: nat
  headers :: "(jsstring \<times> jsstring) list"
  payload :: resp_body

definition json_response :: "nat \<Rightarrow> resp_body \<Rightarrow> response" where
  "json_response st b =
     \<lparr>status = st, headers = [(js ''content-type'', js ''application/json'')], payload = b\<rparr>"

definition error_obj :: "string \<Rightarrow> jsval" where
  "error_obj m = JObj [(js ''error'', JStr (js m))]"

text \<open>
  A chat message. The source's \<^verbatim>\<open>ChatMessage\<close> type allows the roles \<^verbatim>\<open>user\<close> and
  \<^verbatim>\<open>assistant\<close>; the list sent to inference also holds a message of role
  \<^verbatim>\<open>system\<close>, and the cast of the stored value is not checked at run time, so one
  type with the three roles serves for both.
\<close>

datatype Role = User | Assistant | System

record ChatMessage =
  role :: Role
  content :: jsstring

definition MODEL :: jsstring where
  "MODEL = js ''@cf/meta/llama-3.1-8b-instruct''"

definition SYSTEM_PROMPT :: jsstring where
  "SYSTEM_PROMPT = js ''You are a concise, helpful assistant. Keep answers short and practical.''"

definition MAX_HISTORY :: nat where
  "MAX_HISTORY = 20"

text \<open>
  The inference binding \<^verbatim>\<open>env.AI\<close>: \<^verbatim>\<open>run(model, params)\<close> either throws (the
  text is \<^verbatim>\<open>String(err)\<close>) or returns a value. The binding is a function of its
  arguments here; a property proved for every such function holds for whatever the
  service answers. The temperature \<^verbatim>\<open>0.6\<close> is written as the fraction \<open>6 / 10\<close>.
\<close>

record ai_params =
  messages :: "ChatMessage list"
  max_tokens :: nat
  temperature :: rat

datatype ai_outcome = AIThrows jsstring | AIReturns jsval

type_synonym ai = "jsstring \<Rightarrow> ai_params \<Rightarrow> ai_outcome"

text \<open>
  The durable storage of one holder maps keys to stored values; \<^verbatim>\<open>get\<close> hands out a
  copy of the stored value, so the array the handler mutates is its own. The effects of a
  request are recorded in the order they happen.
\<close>

type_synonym storage = "jsstring \<rightharpoonup> ChatMessage list"

datatype event =
    StorageGet jsstring
  | AIRun jsstring ai_params
  | StoragePut jsstring "ChatMessage list"
  | DOFetch jsstring request

text \<open>
  What \<^verbatim>\<open>stub.fetch\<close> gives the router: it throws (the text is \<^verbatim>\<open>String(err)\<close>),
  or it resolves to a response, of which the router reads the status, the
  \<^verbatim>\<open>content-type\<close> header and the text.
\<close>

record do_response =
  do_status :: nat
  do_content_type :: "jsstring option"
  do_text :: jsstring

datatype stub_outcome = StubThrows jsstring | StubResponds do_response

text \<open>
  The bindings: \<^verbatim>\<open>env.AI\<close> may be absent; \<open>CHATROOMS env name req\<close> is
  \<^verbatim>\<open>env.CHATROOMS.get(env.CHATROOMS.idFromName(name)).fetch(req)\<close>.
\<close>

record Env =
  AI :: "ai option"
  CHATROOMS :: "jsstring \<Rightarrow> request \<Rightarrow> stub_outcome"

text \<open>
  What the engine supplies besides: the identifier that \<^verbatim>\<open>crypto.randomUUID()\<close>
  returns, the text of \<^verbatim>\<open>new Date().toISOString()\<close>, and \<^verbatim>\<open>JSON.parse\<close>
  (\<open>None\<close> when it throws).
\<close>

record runtime =
  randomUUID :: jsstring
  now_iso :: jsstring
  JSON_parse :: "jsstring \<Rightarrow> jsval option"

section \<open>The cookie helpers\<close>

text \<open>\<^verbatim>\<open>s.split(sep)\<close> for a separator of one character. It never returns the empty list.\<close>

fun split :: "code_unit \<Rightarrow> jsstring \<Rightarrow> jsstring list" where
  "split sep [] = [[]]"
| "split sep (c # cs) =
     (if c = sep then [] # split sep cs
      else (case split sep cs of [] \<Rightarrow> [[c]] | p # ps \<Rightarrow> (c # p) # ps))"

text \<open>
  \<^verbatim>\<open>getCookie\<close>: the loop over the parts of the header. The destructuring
  \<^verbatim>\<open>[k, ...v]\<close> takes the first piece as \<open>k\<close> and the others as \<open>v\<close>; the first
  part whose \<open>k\<close> is the name decides, also when decoding its value throws.
\<close>

fun getCookie_parts :: "jsstring list \<Rightarrow> jsstring \<Rightarrow> exn + jsstring option" where
  "getCookie_parts [] name = Inr None"
| "getCookie_parts (part # parts) name =
     (case split 0x3D (trim part) of
        [] \<Rightarrow> getCookie_parts parts name
      | k # v \<Rightarrow>
          if k = name then
            (case decodeURIComponent (join (js ''='') v) of
               Inl e \<Rightarrow> Inl e
             | Inr s \<Rightarrow> Inr (Some s))
          else getCookie_parts parts name)"

definition getCookie :: "request \<Rightarrow> jsstring \<Rightarrow> exn + jsstring option" where
  "getCookie req name =
     (case cookie req of
        None \<Rightarrow> Inr None
      | Some c \<Rightarrow> if c = [] then Inr None else getCookie_parts (split 0x3B c) name)"

definition makeSessionCookie :: "jsstring \<Rightarrow> bool \<Rightarrow> exn + jsstring" where
  "makeSessionCookie sessionId secure =
     (case encodeURIComponent sessionId of
        Inl e \<Rightarrow> Inl e
      | Inr enc \<Rightarrow>
          Inr (js ''session='' @ enc @ js ''; Path=/; HttpOnly; SameSite=Lax; Max-Age=2592000'' @
               (if secure then js ''; Secure'' else [])))"

section \<open>The request router: the Worker's \<^verbatim>\<open>fetch\<close>\<close>

text \<open>\<^verbatim>\<open>s.includes(t)\<close>.\<close>

fun starts_with :: "jsstring \<Rightarrow> jsstring \<Rightarrow> bool" where
  "starts_with s [] = True"
| "starts_with [] (t # ts) = False"
| "starts_with (c # cs) (t # ts) = (c = t \<and> starts_with cs ts)"

fun includes_str :: "jsstring \<Rightarrow> jsstring \<Rightarrow> bool" where
  "includes_str [] t = (t = [])"
| "includes_str (c # cs) t = (starts_with (c # cs) t \<or> includes_str cs t)"

text \<open>
  The object spread \<^verbatim>\<open>{ error: ..., ...parsed }\<close> copies the own properties of
  \<open>parsed\<close> over the ones written before it: those of an object, the indices of an
  array or of a string, none for the other values. A property that exists keeps its
  place, a new one is added at the end.
\<close>

fun set_prop :: "jsstring \<Rightarrow> jsval \<Rightarrow> (jsstring \<times> jsval) list \<Rightarrow> (jsstring \<times> jsval) list" where
  "set_prop k v [] = [(k, v)]"
| "set_prop k v ((k', v') # ps) = (if k' = k then (k, v) # ps else (k', v') # set_prop k v ps)"

fun own_props :: "jsval \<Rightarrow> (jsstring \<times> jsval) list" where
  "own_props (JObj kvs) = kvs"
| "own_props (JArr xs) = zip (map digits [0..<length xs]) xs"
| "own_props (JStr s) = zip (map digits [0..<length s]) (map (\<lambda>c. JStr [c]) s)"
| "own_props _ = []"

text \<open>
  The engine enumerates the properties of an object with the array indices first, in
  ascending order, and the other names after them in the order of their creation. An
  array index is the decimal text, without leading zeros, of a number below
  \<open>2\<^sup>3\<^sup>2 - 1\<close>.
\<close>

fun decimal_value :: "jsstring \<Rightarrow> int \<Rightarrow> int option" where
  "decimal_value [] acc = Some acc"
| "decimal_value (c # cs) acc =
     (if 0x30 \<le> c \<and> c \<le> 0x39 then decimal_value cs (10 * acc + (uint c - 0x30)) else None)"

definition array_index :: "jsstring \<Rightarrow> int option" where
  "array_index k =
     (case k of
        [] \<Rightarrow> None
      | c # cs \<Rightarrow>
          if c = 0x30 \<and> cs \<noteq> [] then None
          else (case decimal_value k 0 of
                  None \<Rightarrow> None
                | Some n \<Rightarrow> if n < 4294967295 then Some n else None))"

definition enumeration_order :: "(jsstring \<times> jsval) list \<Rightarrow> (jsstring \<times> jsval) list" where
  "enumeration_order ps =
     map snd (sort_key fst
       (List.map_filter (\<lambda>(k, v). map_option (\<lambda>n. (n, (k, v))) (array_index k)) ps)) @
     filter (\<lambda>(k, v). array_index k = None) ps"

definition spread :: "(jsstring \<times> jsval) list \<Rightarrow> jsval \<Rightarrow> (jsstring \<times> jsval) list" where
  "spread base v = enumeration_order (fold (\<lambda>(k, x) acc. set_prop k x acc) (own_props v) base)"

text \<open>
  The property access \<^verbatim>\<open>v.k\<close> (without \<^verbatim>\<open>?.\<close>): a TypeError on \<^verbatim>\<open>undefined\<close> and
  \<^verbatim>\<open>null\<close>.
\<close>

definition get_prop :: "jsval \<Rightarrow> jsstring \<Rightarrow> exn + jsval" where
  "get_prop v k = (if v = JUndefined \<or> v = JNull then Inl TypeError else Inr (opt_get v k))"

text \<open>
  \<^verbatim>\<open>Response.json(data, { status })\<close> with a status that is not a constant of the
  source: the constructor throws a RangeError for a status outside 200..599 and a
  TypeError for one of 204, 205 and 304, which allow no body.
\<close>

definition Response_json :: "resp_body \<Rightarrow> nat \<Rightarrow> exn + response" where
  "Response_json b st =
     (if st < 200 \<or> 599 < st then Inl RangeError
      else if st = 204 \<or> st = 205 \<or> st = 304 then Inl TypeError
      else Inr (json_response st b))"

definition do_ok :: "do_response \<Rightarrow> bool" where
  "do_ok r \<longleftrightarrow> 200 \<le> do_status r \<and> do_status r \<le> 299"

text \<open>
  The session of a request: the cookie's value, or when there is none (or an empty one) a
  fresh identifier together with the cookie to set. \<open>Inl\<close> is an exception thrown by a
  cookie helper, which nothing in the router catches.
\<close>

definition session_of :: "runtime \<Rightarrow> request \<Rightarrow> exn + jsstring \<times> jsstring option" where
  "session_of rt req =
     (case getCookie req (js ''session'') of
        Inl e \<Rightarrow> Inl e
      | Inr c \<Rightarrow>
          let secure = (protocol req = js ''https:'');
              fresh = (case makeSessionCookie (randomUUID rt) secure of
                         Inl e \<Rightarrow> Inl e
                       | Inr setCookie \<Rightarrow> Inr (randomUUID rt, Some setCookie))
          in (case c of
                None \<Rightarrow> fresh
              | Some sessionId \<Rightarrow> if sessionId = [] then fresh else Inr (sessionId, None)))"

definition cookie_header :: "jsstring option \<Rightarrow> (jsstring \<times> jsstring) list" where
  "cookie_header setCookie =
     (case setCookie of
        None \<Rightarrow> []
      | Some c \<Rightarrow> if c = [] then [] else [(js ''set-cookie'', c)])"

text \<open>
  The request that the router sends to the holder:
  \<^verbatim>\<open>stub.fetch("https://do/chat", { method: "POST", headers, body: JSON.stringify({ message }) })\<close>.
\<close>

definition holder_request :: "jsstring \<Rightarrow> request" where
  "holder_request message =
     \<lparr>method = js ''POST'', protocol = js ''https:'', pathname = js ''/chat'', cookie = None,
      json_body = Some (JObj [(js ''message'', JStr message)])\<rparr>"

text \<open>
  The branch \<^verbatim>\<open>POST /api/chat\<close> after the session is settled: the body is read and
  validated, the message goes to the session's holder, and the holder's answer is
  translated. The result is the response, or the exception that leaves the handler
  uncaught, and the calls made to a holder.
\<close>

definition forward_chat ::
  "runtime \<Rightarrow> Env \<Rightarrow> request \<Rightarrow> jsstring \<Rightarrow> jsstring option \<Rightarrow> (exn + response) \<times> event list" where
  "forward_chat rt env req sessionId setCookie =
     (case json_body req of
        None \<Rightarrow> (Inr (json_response 400 (JsonBody (error_obj ''Invalid JSON''))), [])
      | Some body \<Rightarrow>
         (case coerce_field body (js ''message'') of
            Inl e \<Rightarrow> (Inl e, [])
          | Inr message \<Rightarrow>
             if message = [] then
               (Inr (json_response 400 (JsonBody (error_obj ''Missing message''))), [])
             else
               let doReq = holder_request message;
                   evs = [DOFetch sessionId doReq]
               in (case CHATROOMS env sessionId doReq of
                     StubThrows err \<Rightarrow>
                       (Inr (json_response 502
                               (JsonBody (JObj [(js ''error'', JStr (js ''Failed to reach Durable Object'')),
                                                (js ''details'', JStr err)]))), evs)
                   | StubResponds doResp \<Rightarrow>
                      let ct = (case do_content_type doResp of
                                  None \<Rightarrow> []
                                | Some c \<Rightarrow> c);
                          raw = do_text doResp
                      in if includes_str ct (js ''application/json'') then
                           (case JSON_parse rt raw of
                              None \<Rightarrow>
                                (Inr (json_response 502
                                        (JsonBody (JObj [(js ''error'', JStr (js ''DO returned invalid JSON'')),
                                                         (js ''raw'', JStr raw)]))), evs)
                            | Some parsed \<Rightarrow>
                               if \<not> do_ok doResp then
                                 (Response_json
                                    (JsonBody (JObj (spread [(js ''error'', JStr (js ''Durable Object error''))] parsed)))
                                    (do_status doResp), evs)
                               else
                                 (case get_prop parsed (js ''reply'') of
                                    Inl e \<Rightarrow> (Inl e, evs)
                                  | Inr reply \<Rightarrow>
                                     (Inr \<lparr>status = 200,
                                           headers = (js ''content-type'', js ''application/json'') #
                                                     cookie_header setCookie,
                                           payload = JsonBody (JObj [(js ''reply'', reply)])\<rparr>, evs)))
                         else
                           (Inr (json_response 502
                                   (JsonBody (JObj [(js ''error'', JStr (js ''DO returned non-JSON response'')),
                                                    (js ''raw'', JStr raw)]))), evs))))"

text \<open>The handler, route by route.\<close>

definition worker_fetch :: "runtime \<Rightarrow> Env \<Rightarrow> request \<Rightarrow> (exn + response) \<times> event list" where
  "worker_fetch rt env req =
    (if method req = js ''GET'' \<and> pathname req = js ''/health'' then
       (Inr (json_response 200
               (JsonBody (JObj [(js ''ok'', JBool True),
                                (js ''hasAI'', JBool (AI env \<noteq> None)),
                                (js ''hasDO'', JBool True),
                                (js ''ts'', JStr (now_iso rt))]))), [])
     else if method req = js ''GET'' \<and> pathname req = js ''/'' then
       (case session_of rt req of
          Inl e \<Rightarrow> (Inl e, [])
        | Inr (sessionId, setCookie) \<Rightarrow>
            (Inr \<lparr>status = 200,
                  headers = (js ''content-type'', js ''text/html; charset=utf-8'') #
                            (case setCookie of
                               None \<Rightarrow> []
                             | Some c \<Rightarrow> [(js ''set-cookie'', c)]),
                  payload = HtmlPage\<rparr>, []))
     else if method req = js ''POST'' \<and> pathname req = js ''/api/chat'' then
       (case session_of rt req of
          Inl e \<Rightarrow> (Inl e, [])
        | Inr (sessionId, setCookie) \<Rightarrow> forward_chat rt env req sessionId setCookie)
     else
       (Inr \<lparr>status = 404,
             headers = [(js ''content-type'', js ''text/plain;charset=UTF-8'')],
             payload = TextBody (js ''Not found'')\<rparr>, []))"

section \<open>The session state holder: \<^verbatim>\<open>ChatRoom.fetch\<close>\<close>

text \<open>The loop \<^verbatim>\<open>while (history.length > MAX_HISTORY) history.shift()\<close>.\<close>

function shift_loop :: "ChatMessage list \<Rightarrow> ChatMessage list" where
  "shift_loop history = (if length history > MAX_HISTORY then shift_loop (tl history) else history)"
  by pat_completeness auto
termination
  by (relation "measure length") auto

declare shift_loop.simps [simp del]

text \<open>The read \<^verbatim>\<open>((await this.state.storage.get("history")) as ChatMessage[]) ?? []\<close>.\<close>

definition stored_history :: "storage \<Rightarrow> ChatMessage list" where
  "stored_history st = (case st (js ''history'') of Some h \<Rightarrow> h | None \<Rightarrow> [])"

text \<open>
  The body of the outer \<^verbatim>\<open>try\<close>: \<open>Inl e\<close> is an exception that reaches the outer
  \<^verbatim>\<open>catch\<close>. The result carries the response, the storage afterwards and the effects.
\<close>

definition ChatRoom_try ::
  "Env \<Rightarrow> storage \<Rightarrow> request \<Rightarrow> exn \<times> event list + response \<times> storage \<times> event list" where
  "ChatRoom_try env st req =
    (if method req \<noteq> js ''POST'' then
       Inr (json_response 405 (JsonBody (error_obj ''Method not allowed'')), st, [])
     else case json_body req of
       None \<Rightarrow> Inr (json_response 400 (JsonBody (error_obj ''Invalid JSON'')), st, [])
     | Some body \<Rightarrow>
        (case coerce_field body (js ''message'') of
           Inl e \<Rightarrow> Inl (e, [])
         | Inr message \<Rightarrow>
            if message = [] then
              Inr (json_response 400 (JsonBody (error_obj ''Missing message'')), st, [])
            else
              let history = shift_loop (stored_history st @ [\<lparr>role = User, content = message\<rparr>]);
                  msgs = \<lparr>role = System, content = SYSTEM_PROMPT\<rparr> # history;
                  params = \<lparr>messages = msgs, max_tokens = 256, temperature = 6 / 10\<rparr>;
                  commit = (\<lambda>reply evs.
                    let history' = shift_loop (history @ [\<lparr>role = Assistant, content = reply\<rparr>])
                    in Inr (json_response 200 (JsonBody (JObj [(js ''reply'', JStr reply)])),
                            st(js ''history'' \<mapsto> history'),
                            evs @ [StoragePut (js ''history'') history']))
              in (case AI env of
                    None \<Rightarrow>
                      commit (js ''DEV MODE (no Workers AI). You said: '' @ message)
                        [StorageGet (js ''history'')]
                  | Some run \<Rightarrow>
                     (case run MODEL params of
                        AIThrows err \<Rightarrow>
                          Inr (json_response 502
                                 (JsonBody (JObj [(js ''error'', JStr (js ''Workers AI call failed'')),
                                                  (js ''details'', JStr err)])),
                               st, [StorageGet (js ''history''), AIRun MODEL params])
                      | AIReturns aiResult \<Rightarrow>
                         (case coerce_field aiResult (js ''response'') of
                            Inl e \<Rightarrow> Inl (e, [StorageGet (js ''history''), AIRun MODEL params])
                          | Inr reply \<Rightarrow>
                             if reply = [] then
                               Inr (json_response 502
                                      (JsonBody (JObj [(js ''error'', JStr (js ''Empty AI response'')),
                                                       (js ''aiResult'', aiResult)])),
                                    st, [StorageGet (js ''history''), AIRun MODEL params])
                             else
                               commit reply [StorageGet (js ''history''), AIRun MODEL params])))))"

text \<open>
  \<^verbatim>\<open>ChatRoom.fetch\<close>: whatever the body throws is answered with status 500; nothing
  was written at that point, since the only write is the last effect of the body.
\<close>

definition ChatRoom_fetch ::
  "Env \<Rightarrow> storage \<Rightarrow> request \<Rightarrow> response \<times> storage \<times> event list" where
  "ChatRoom_fetch env st req =
     (case ChatRoom_try env st req of
        Inl (e, evs) \<Rightarrow> (json_response 500 (JsonError (js ''Unhandled DO exception'') e), st, evs)
      | Inr r \<Rightarrow> r)"

section \<open>The holder behind the router\<close>

text \<open>
  The binding \<^verbatim>\<open>CHATROOMS\<close> is the namespace of the class \<^verbatim>\<open>ChatRoom\<close>: the stub of a
  name hands the request to \<^verbatim>\<open>ChatRoom.fetch\<close> of the holder of that name, which runs on
  that holder's storage. Of the answer the router reads the status, the
  \<^verbatim>\<open>content-type\<close> header and the text; \<open>render b\<close> is the JSON text of the body \<open>b\<close>.
\<close>

definition holder_stub ::
  "(resp_body \<Rightarrow> jsstring) \<Rightarrow> Env \<Rightarrow> (jsstring \<Rightarrow> storage) \<Rightarrow> jsstring \<Rightarrow> request \<Rightarrow> stub_outcome" where
  "holder_stub render env stores name req =
     (let resp = fst (ChatRoom_fetch env (stores name) req)
      in StubResponds \<lparr>do_status = status resp,
                        do_content_type = map_of (headers resp) (js ''content-type''),
                        do_text = render (payload resp)\<rparr>)"

section \<open>Notions used to state the properties\<close>

text \<open>The newest \<open>n\<close> entries of a list: what is left when the oldest are dropped.\<close>

definition newest :: "nat \<Rightarrow> 'a list \<Rightarrow> 'a list" where
  "newest n xs = drop (length xs - n) xs"

text \<open>
  Requests to one holder are handled one after the other, each on the storage that the
  one before left: \<open>serve st rs\<close> is the storage after the requests \<open>rs\<close>, each
  with the bindings it is handled under.
\<close>

fun serve :: "storage \<Rightarrow> (Env \<times> request) list \<Rightarrow> storage" where
  "serve st [] = st"
| "serve st ((env, req) # rs) = serve (fst (snd (ChatRoom_fetch env st req))) rs"

text \<open>Environments and requests for the concrete instances below.\<close>

definition dev_env :: Env where
  "dev_env = \<lparr>AI = None, CHATROOMS = (\<lambda>name req. StubThrows [])\<rparr>"

definition canned_env :: "ai_outcome \<Rightarrow> Env" where
  "canned_env out = \<lparr>AI = Some (\<lambda>model params. out), CHATROOMS = (\<lambda>name req. StubThrows [])\<rparr>"

definition chat_post :: "jsval \<Rightarrow> request" where
  "chat_post b = \<lparr>method = js ''POST'', protocol = js ''https:'', pathname = js ''/chat'',
     cookie = None, json_body = Some b\<rparr>"

definition say :: "string \<Rightarrow> jsval" where
  "say s = JObj [(js ''message'', JStr (js s))]"

definition demo_runtime :: runtime where
  "demo_runtime = \<lparr>randomUUID = js ''123e4567-e89b-42d3-a456-426614174000'', now_iso = js ''2025-01-01T00:00:00.000Z'',
     JSON_parse = (\<lambda>raw. if raw = js ''{\"reply\":\"yo\"}'' then Some (JObj [(js ''reply'', JStr (js ''yo''))]) else None)\<rparr>"

definition api_post :: "jsstring option \<Rightarrow> jsval option \<Rightarrow> request" where
  "api_post c b = \<lparr>method = js ''POST'', protocol = js ''https:'', pathname = js ''/api/chat'',
     cookie = c, json_body = b\<rparr>"

text \<open>
  The router's bindings with the class \<^verbatim>\<open>ChatRoom\<close> behind \<^verbatim>\<open>CHATROOMS\<close>: every holder
  runs without an inference binding on an empty storage. The instances below read the
  call the router makes, not the text of the answer.
\<close>

definition composed_env :: Env where
  "composed_env = \<lparr>AI = None, CHATROOMS = holder_stub (\<lambda>b. []) dev_env (\<lambda>name. Map.empty)\<rparr>"

definition replying_env :: Env where
  "replying_env = \<lparr>AI = None, CHATROOMS = (\<lambda>name req. StubResponds
      \<lparr>do_status = 200, do_content_type = Some (js ''application/json''), do_text = js ''{\"reply\":\"yo\"}''\<rparr>)\<rparr>"

text \<open>A Unicode scalar value: a code point that is not a surrogate.\<close>

definition scalar :: "nat \<Rightarrow> bool" where
  "scalar cp \<longleftrightarrow> cp < 0x110000 \<and> \<not> (0xD800 \<le> cp \<and> cp \<le> 0xDFFF)"

definition twenty_stored :: storage where
  "twenty_stored = [js ''history'' \<mapsto> replicate 20 \<lparr>role = User, content = js ''old''\<rparr>]"

section \<open>The history buffer\<close>

lemma shift_loop_drop: "shift_loop h = drop (length h - MAX_HISTORY) h"
proof (induction h rule: shift_loop.induct)
  case (1 history)
  show ?case
  proof (cases "length history > MAX_HISTORY")
    case True
    then have ne: "history \<noteq> []" by auto
    have "shift_loop history = shift_loop (tl history)"
      using True by (subst shift_loop.simps) simp
    also have "\<dots> = drop (length (tl history) - MAX_HISTORY) (tl history)"
      using 1 True by simp
    also have "\<dots> = drop (length history - MAX_HISTORY) history"
      using True ne by (cases history) (simp_all add: Suc_diff_le)
    finally show ?thesis .
  next
    case False
    then show ?thesis by (subst shift_loop.simps) simp
  qed
qed

lemma shift_twice:
  "shift_loop (shift_loop (h @ [u]) @ [a]) = newest 20 (h @ [u, a])"
proof -
  let ?n = "length h + 1 - MAX_HISTORY"
  have "shift_loop (shift_loop (h @ [u]) @ [a]) =
        drop (length (drop ?n (h @ [u]) @ [a]) - MAX_HISTORY) (drop ?n (h @ [u]) @ [a])"
    by (simp add: shift_loop_drop)
  also have "drop ?n (h @ [u]) @ [a] = drop ?n (h @ [u, a])"
    by (simp add: MAX_HISTORY_def)
  also have "drop (length (drop ?n (h @ [u, a])) - MAX_HISTORY) (drop ?n (h @ [u, a])) =
             drop (length (drop ?n (h @ [u, a])) - MAX_HISTORY + ?n) (h @ [u, a])"
    by (simp only: drop_drop)
  also have "length (drop ?n (h @ [u, a])) - MAX_HISTORY + ?n = length (h @ [u, a]) - 20"
    by (simp add: MAX_HISTORY_def)
  finally show ?thesis by (simp only: newest_def)
qed

lemma length_newest: "length (newest n xs) \<le> n"
  by (simp add: newest_def)

lemma set_newest: "set (newest n xs) \<subseteq> set xs"
  by (simp add: newest_def set_drop_subset)

lemma newest_append:
  "newest n (newest n xs @ ys) = newest n (xs @ ys)"
proof -
  have "newest n (newest n xs @ ys) =
        drop (length (drop (length xs - n) xs @ ys) - n) (drop (length xs - n) (xs @ ys))"
    by (simp add: newest_def)
  also have "\<dots> = drop (length (drop (length xs - n) xs @ ys) - n + (length xs - n)) (xs @ ys)"
    by (simp only: drop_drop)
  also have "length (drop (length xs - n) xs @ ys) - n + (length xs - n) = length (xs @ ys) - n"
    by simp
  finally show ?thesis by (simp only: newest_def)
qed

section \<open>What a request to the holder does\<close>

text \<open>
  Every request either is answered with an error and leaves the storage alone, or is
  answered 200 with a reply \<open>r\<close> to the message \<open>m\<close> it read, after one write.
\<close>

lemma fetch_cases:
  assumes "ChatRoom_fetch env st req = (resp, st', evs)"
  shows "(status resp \<in> {400, 405, 500, 502} \<and> st' = st \<and> (\<forall>k h. StoragePut k h \<notin> set evs)) \<or>
         (\<exists>b m r pre. status resp = 200 \<and> method req = js ''POST'' \<and> json_body req = Some b \<and>
            coerce_field b (js ''message'') = Inr m \<and> m \<noteq> [] \<and> r \<noteq> [] \<and>
            payload resp = JsonBody (JObj [(js ''reply'', JStr r)]) \<and>
            st' = st(js ''history'' \<mapsto> newest 20 (stored_history st @
                    [\<lparr>role = User, content = m\<rparr>, \<lparr>role = Assistant, content = r\<rparr>])) \<and>
            evs = pre @ [StoragePut (js ''history'') (newest 20 (stored_history st @
                    [\<lparr>role = User, content = m\<rparr>, \<lparr>role = Assistant, content = r\<rparr>]))] \<and>
            (\<forall>k h. StoragePut k h \<notin> set pre))"
  using assms unfolding shift_twice [symmetric]
  by (auto simp: ChatRoom_fetch_def ChatRoom_try_def Let_def json_response_def
      split: if_splits option.splits sum.splits ai_outcome.splits prod.splits)

text \<open>The outcome of a request that passes the validation, branch by branch.\<close>

lemma fetch_valid:
  assumes "method req = js ''POST''" "json_body req = Some b"
    "coerce_field b (js ''message'') = Inr m" "m \<noteq> []"
    "p = \<lparr>messages = \<lparr>role = System, content = SYSTEM_PROMPT\<rparr> #
            shift_loop (stored_history st @ [\<lparr>role = User, content = m\<rparr>]),
          max_tokens = 256, temperature = 6 / 10\<rparr>"
    "h = (\<lambda>r. newest 20 (stored_history st @
            [\<lparr>role = User, content = m\<rparr>, \<lparr>role = Assistant, content = r\<rparr>]))"
  shows "ChatRoom_fetch env st req =
    (case AI env of
       None \<Rightarrow>
         (json_response 200 (JsonBody (JObj [(js ''reply'', JStr (js ''DEV MODE (no Workers AI). You said: '' @ m))])),
          st(js ''history'' \<mapsto> h (js ''DEV MODE (no Workers AI). You said: '' @ m)),
          [StorageGet (js ''history''),
           StoragePut (js ''history'') (h (js ''DEV MODE (no Workers AI). You said: '' @ m))])
     | Some run \<Rightarrow>
        (case run MODEL p of
           AIThrows err \<Rightarrow>
             (json_response 502 (JsonBody (JObj [(js ''error'', JStr (js ''Workers AI call failed'')),
                                                 (js ''details'', JStr err)])),
              st, [StorageGet (js ''history''), AIRun MODEL p])
         | AIReturns aiResult \<Rightarrow>
            (case coerce_field aiResult (js ''response'') of
               Inl e \<Rightarrow> (json_response 500 (JsonError (js ''Unhandled DO exception'') e), st,
                          [StorageGet (js ''history''), AIRun MODEL p])
             | Inr reply \<Rightarrow>
                 if reply = [] then
                   (json_response 502 (JsonBody (JObj [(js ''error'', JStr (js ''Empty AI response'')),
                                                       (js ''aiResult'', aiResult)])),
                    st, [StorageGet (js ''history''), AIRun MODEL p])
                 else
                   (json_response 200 (JsonBody (JObj [(js ''reply'', JStr reply)])),
                    st(js ''history'' \<mapsto> h reply),
                    [StorageGet (js ''history''), AIRun MODEL p,
                     StoragePut (js ''history'') (h reply)]))))"
  using assms unfolding shift_twice [symmetric]
  by (simp add: ChatRoom_fetch_def ChatRoom_try_def Let_def
      split: option.splits sum.splits ai_outcome.splits)

section \<open>Properties of the holder\<close>

lemma coerce_hi:
  "coerce_field (say ''hi'') (js ''message'') = Inr (js ''hi'')"
  by (simp add: say_def coerce_field_def nullish_def trim_def is_ws_def js_def)

lemma dev_run:
  "ChatRoom_fetch dev_env twenty_stored (chat_post (say ''hi'')) =
     (json_response 200 (JsonBody (JObj [(js ''reply'', JStr (js ''DEV MODE (no Workers AI). You said: hi''))])),
      twenty_stored(js ''history'' \<mapsto>
        replicate 18 \<lparr>role = User, content = js ''old''\<rparr> @
        [\<lparr>role = User, content = js ''hi''\<rparr>,
         \<lparr>role = Assistant, content = js ''DEV MODE (no Workers AI). You said: hi''\<rparr>]),
      [StorageGet (js ''history''),
       StoragePut (js ''history'')
        (replicate 18 \<lparr>role = User, content = js ''old''\<rparr> @
         [\<lparr>role = User, content = js ''hi''\<rparr>,
          \<lparr>role = Assistant, content = js ''DEV MODE (no Workers AI). You said: hi''\<rparr>])])"
  apply (subst fetch_valid [OF _ _ coerce_hi _ refl refl])
  apply (simp_all add: chat_post_def dev_env_def)
   apply (simp add: js_def)
  apply (simp add: newest_def stored_history_def twenty_stored_def js_def)
  done

lemma put_in_events:
  assumes "ChatRoom_fetch env st req = (resp, st', evs)" "StoragePut k h \<in> set evs"
  obtains b m r where "status resp = 200" "json_body req = Some b"
    "coerce_field b (js ''message'') = Inr m" "m \<noteq> []" "r \<noteq> []"
    "payload resp = JsonBody (JObj [(js ''reply'', JStr r)])"
    "k = js ''history''"
    "h = newest 20 (stored_history st @
           [\<lparr>role = User, content = m\<rparr>, \<lparr>role = Assistant, content = r\<rparr>])"
    "st' = st(js ''history'' \<mapsto> h)"
  using fetch_cases [OF assms(1)] assms(2) by auto

lemma run_in_events:
  assumes "ChatRoom_fetch env st req = (resp, st', evs)" "AIRun mo p \<in> set evs"
  shows "\<exists>m. mo = MODEL \<and> AI env \<noteq> None \<and>
           p = \<lparr>messages = \<lparr>role = System, content = SYSTEM_PROMPT\<rparr> #
                   shift_loop (stored_history st @ [\<lparr>role = User, content = m\<rparr>]),
                 max_tokens = 256, temperature = 6 / 10\<rparr>"
  using assms
  by (auto simp: ChatRoom_fetch_def ChatRoom_try_def Let_def
      split: if_splits option.splits sum.splits ai_outcome.splits prod.splits)

lemma stored_history_update: "stored_history (st(js ''history'' \<mapsto> h)) = h"
  by (simp add: stored_history_def)

lemma not_system_iff: "role x \<noteq> System \<longleftrightarrow> role x = User \<or> role x = Assistant"
  by (cases "role x") simp_all

lemma stored_length:
  assumes "ChatRoom_fetch env st req = (resp, st', evs)"
    and "length (stored_history st) \<le> 20"
  shows "length (stored_history st') \<le> 20"
proof (cases "\<exists>k h. StoragePut k h \<in> set evs")
  case True
  then obtain k h where put: "StoragePut k h \<in> set evs" by blast
  from assms(1) put obtain b m r where
    "h = newest 20 (stored_history st @
           [\<lparr>role = User, content = m\<rparr>, \<lparr>role = Assistant, content = r\<rparr>])"
    "st' = st(js ''history'' \<mapsto> h)"
    by (rule put_in_events)
  then show ?thesis by (simp add: stored_history_update length_newest)
next
  case False
  with fetch_cases [OF assms(1)] have "st' = st" by auto
  with assms(2) show ?thesis by simp
qed

lemma serve_length:
  "length (stored_history st) \<le> 20 \<Longrightarrow> length (stored_history (serve st rs)) \<le> 20"
proof (induction rs arbitrary: st)
  case Nil
  then show ?case by simp
next
  case (Cons a rs)
  obtain env req where a: "a = (env, req)" by (cases a)
  let ?r = "ChatRoom_fetch env st req"
  have "?r = (fst ?r, fst (snd ?r), snd (snd ?r))" by simp
  from stored_length [OF this Cons.prems]
  have "length (stored_history (fst (snd ?r))) \<le> 20" .
  from Cons.IH [OF this] show ?case by (simp add: a)
qed

text \<open>
  Claim C1. Whatever the stored history was and whatever the request is, a history that
  \<^verbatim>\<open>ChatRoom.fetch\<close> writes to the storage has at most 20 (\<^verbatim>\<open>MAX_HISTORY\<close>) entries:
  it is written under the key \<^verbatim>\<open>history\<close>, it is the value the storage holds
  afterwards, and it consists of the newest 20 entries of the stored history followed by
  the user's message and the assistant's reply, so the oldest entries are the ones that
  go. So from the empty storage, after any number of requests, the persisted history has
  at most 20 entries.
\<close>

theorem C1_history_bounded:
  assumes "ChatRoom_fetch env st req = (resp, st', evs)" and "StoragePut k h \<in> set evs"
  shows "length h \<le> 20 \<and> MAX_HISTORY = 20 \<and> k = js ''history'' \<and> st' = st(js ''history'' \<mapsto> h) \<and>
     (\<exists>m r. h = newest 20 (stored_history st @
                 [\<lparr>role = User, content = m\<rparr>, \<lparr>role = Assistant, content = r\<rparr>])) \<and>
     (\<forall>rs. length (stored_history (serve Map.empty rs)) \<le> 20)"
proof -
  from assms obtain b m r where
    k: "k = js ''history''" and
    h: "h = newest 20 (stored_history st @
           [\<lparr>role = User, content = m\<rparr>, \<lparr>role = Assistant, content = r\<rparr>])" and
    st': "st' = st(js ''history'' \<mapsto> h)"
    by (rule put_in_events)
  have "length h \<le> 20" unfolding h by (rule length_newest)
  moreover have "\<exists>m r. h = newest 20 (stored_history st @
                 [\<lparr>role = User, content = m\<rparr>, \<lparr>role = Assistant, content = r\<rparr>])"
    using h by blast
  moreover have "length (stored_history (serve Map.empty rs)) \<le> 20" for rs
    by (rule serve_length) (simp add: stored_history_def)
  ultimately show ?thesis using k st' by (simp add: MAX_HISTORY_def)
qed

text \<open>
  An instance of C1: twenty stored entries and one exchange without inference; the two
  oldest entries are dropped.
\<close>

theorem C1_history_bounded_witness:
  "StoragePut (js ''history'')
     (replicate 18 \<lparr>role = User, content = js ''old''\<rparr> @
      [\<lparr>role = User, content = js ''hi''\<rparr>,
       \<lparr>role = Assistant, content = js ''DEV MODE (no Workers AI). You said: hi''\<rparr>])
     \<in> set (snd (snd (ChatRoom_fetch dev_env twenty_stored
                (chat_post (say ''hi''))))) \<and>
   length (stored_history twenty_stored) = 20 \<and>
   length (replicate 18 \<lparr>role = User, content = js ''old''\<rparr> @
      [\<lparr>role = User, content = js ''hi''\<rparr>,
       \<lparr>role = Assistant, content = js ''DEV MODE (no Workers AI). You said: hi''\<rparr>]) \<le> 20"
proof -
  have put: "StoragePut (js ''history'')
     (replicate 18 \<lparr>role = User, content = js ''old''\<rparr> @
      [\<lparr>role = User, content = js ''hi''\<rparr>,
       \<lparr>role = Assistant, content = js ''DEV MODE (no Workers AI). You said: hi''\<rparr>])
     \<in> set [StorageGet (js ''history''),
       StoragePut (js ''history'')
        (replicate 18 \<lparr>role = User, content = js ''old''\<rparr> @
         [\<lparr>role = User, content = js ''hi''\<rparr>,
          \<lparr>role = Assistant, content = js ''DEV MODE (no Workers AI). You said: hi''\<rparr>])]"
    by simp
  from C1_history_bounded [OF dev_run put]
  have "length (replicate 18 \<lparr>role = User, content = js ''old''\<rparr> @
      [\<lparr>role = User, content = js ''hi''\<rparr>,
       \<lparr>role = Assistant, content = js ''DEV MODE (no Workers AI). You said: hi''\<rparr>]) \<le> 20"
    by (rule conjunct1)
  moreover have "length (stored_history twenty_stored) = 20"
    by (simp add: stored_history_def twenty_stored_def)
  ultimately show ?thesis using put by (simp only: dev_run snd_conv simp_thms)
qed

lemma written_roles:
  assumes "ChatRoom_fetch env st req = (resp, st', evs)"
    and "\<forall>x \<in> set (stored_history st). role x \<noteq> System"
    and "StoragePut k h \<in> set evs"
  shows "\<forall>x \<in> set h. role x = User \<or> role x = Assistant"
proof -
  from assms(1,3) obtain b m r where
    h: "h = newest 20 (stored_history st @
         [\<lparr>role = User, content = m\<rparr>, \<lparr>role = Assistant, content = r\<rparr>])"
    by (rule put_in_events)
  have "set h \<subseteq> set (stored_history st @
         [\<lparr>role = User, content = m\<rparr>, \<lparr>role = Assistant, content = r\<rparr>])"
    unfolding h by (rule set_newest)
  with assms(2) show ?thesis by (auto simp: not_system_iff)
qed

lemma stored_roles:
  assumes "ChatRoom_fetch env st req = (resp, st', evs)"
    and "\<forall>x \<in> set (stored_history st). role x \<noteq> System"
  shows "\<forall>x \<in> set (stored_history st'). role x \<noteq> System"
proof (cases "\<exists>k h. StoragePut k h \<in> set evs")
  case True
  then obtain k h where put: "StoragePut k h \<in> set evs" by blast
  from assms(1) put have "st' = st(js ''history'' \<mapsto> h)" by (rule put_in_events)
  then show ?thesis
    using written_roles [OF assms put] by (simp add: stored_history_update not_system_iff)
next
  case False
  with fetch_cases [OF assms(1)] have "st' = st" by auto
  with assms(2) show ?thesis by simp
qed

lemma serve_roles:
  "\<forall>x \<in> set (stored_history st). role x \<noteq> System \<Longrightarrow>
     \<forall>x \<in> set (stored_history (serve st rs)). role x \<noteq> System"
proof (induction rs arbitrary: st)
  case Nil
  then show ?case by simp
next
  case (Cons a rs)
  obtain env req where a: "a = (env, req)" by (cases a)
  let ?r = "ChatRoom_fetch env st req"
  have "?r = (fst ?r, fst (snd ?r), snd (snd ?r))" by simp
  from stored_roles [OF this Cons.prems]
  have "\<forall>x \<in> set (stored_history (fst (snd ?r))). role x \<noteq> System" .
  from Cons.IH [OF this] show ?case by (simp add: a)
qed

text \<open>
  Claim C2. No message of role \<^verbatim>\<open>system\<close> is written to the persisted history: when
  the stored history holds none (as the empty storage does), the history after the
  request and every history written hold only \<^verbatim>\<open>user\<close> and \<^verbatim>\<open>assistant\<close> entries.
  The priming message is the head of the list passed to the inference call, and of that
  list only. So from the empty storage, after any number of requests, the persisted
  history holds only \<^verbatim>\<open>user\<close> and \<^verbatim>\<open>assistant\<close> entries.
\<close>

theorem C2_no_system_persisted:
  assumes "ChatRoom_fetch env st req = (resp, st', evs)"
    and "\<forall>x \<in> set (stored_history st). role x \<noteq> System"
  shows "(\<forall>x \<in> set (stored_history st'). role x = User \<or> role x = Assistant) \<and>
         (\<forall>k h. StoragePut k h \<in> set evs \<longrightarrow> (\<forall>x \<in> set h. role x = User \<or> role x = Assistant)) \<and>
         (\<forall>mo p. AIRun mo p \<in> set evs \<longrightarrow>
            hd (messages p) = \<lparr>role = System, content = SYSTEM_PROMPT\<rparr> \<and>
            (\<forall>x \<in> set (tl (messages p)). role x = User \<or> role x = Assistant)) \<and>
         (\<forall>rs. \<forall>x \<in> set (stored_history (serve Map.empty rs)). role x = User \<or> role x = Assistant)"
proof (intro conjI allI impI)
  show "\<forall>x \<in> set h. role x = User \<or> role x = Assistant" if "StoragePut k h \<in> set evs" for k h
    using assms that by (rule written_roles)
  show "\<forall>x \<in> set (stored_history st'). role x = User \<or> role x = Assistant"
    using stored_roles [OF assms] by (simp add: not_system_iff)
  show "\<forall>x \<in> set (stored_history (serve Map.empty rs)). role x = User \<or> role x = Assistant" for rs
    using serve_roles [of Map.empty rs] by (simp add: stored_history_def not_system_iff)
next
  fix mo p assume "AIRun mo p \<in> set evs"
  from run_in_events [OF assms(1) this] obtain m where
    p: "messages p = \<lparr>role = System, content = SYSTEM_PROMPT\<rparr> #
                   shift_loop (stored_history st @ [\<lparr>role = User, content = m\<rparr>])"
    by auto
  show "hd (messages p) = \<lparr>role = System, content = SYSTEM_PROMPT\<rparr>" by (simp add: p)
  have "set (shift_loop (stored_history st @ [\<lparr>role = User, content = m\<rparr>]))
          \<subseteq> set (stored_history st @ [\<lparr>role = User, content = m\<rparr>])"
    unfolding shift_loop_drop by (rule set_drop_subset)
  with assms(2) show "\<forall>x \<in> set (tl (messages p)). role x = User \<or> role x = Assistant"
    by (auto simp: p not_system_iff)
qed

lemma coerce_yo:
  "coerce_field (JObj [(js ''response'', JStr (js ''yo''))]) (js ''response'') = Inr (js ''yo'')"
  by (simp add: coerce_field_def nullish_def trim_def is_ws_def js_def)

lemma coerce_blank:
  "coerce_field (JObj [(js ''response'', JStr (js ''  ''))]) (js ''response'') = Inr []"
  by (simp add: coerce_field_def nullish_def trim_def is_ws_def js_def)

lemma shift_loop_short: "length h \<le> 20 \<Longrightarrow> shift_loop h = h"
  by (simp add: shift_loop_drop MAX_HISTORY_def)

lemma ai_run:
  "ChatRoom_fetch (canned_env (AIReturns (JObj [(js ''response'', JStr (js ''yo''))]))) Map.empty
     (chat_post (say ''hi'')) =
     (json_response 200 (JsonBody (JObj [(js ''reply'', JStr (js ''yo''))])),
      [js ''history'' \<mapsto> [\<lparr>role = User, content = js ''hi''\<rparr>, \<lparr>role = Assistant, content = js ''yo''\<rparr>]],
      [StorageGet (js ''history''),
       AIRun MODEL \<lparr>messages = [\<lparr>role = System, content = SYSTEM_PROMPT\<rparr>,
                                 \<lparr>role = User, content = js ''hi''\<rparr>],
                    max_tokens = 256, temperature = 6 / 10\<rparr>,
       StoragePut (js ''history'')
         [\<lparr>role = User, content = js ''hi''\<rparr>, \<lparr>role = Assistant, content = js ''yo''\<rparr>]])"
  apply (subst fetch_valid [OF _ _ coerce_hi _ refl refl])
    apply (simp_all add: chat_post_def canned_env_def coerce_yo)
   apply (simp add: js_def)
  apply (simp add: newest_def stored_history_def shift_loop_short)
  apply (simp add: js_def)
  done

text \<open>An instance of C2: one exchange with an inference binding, from the empty storage.\<close>

theorem C2_no_system_persisted_witness:
  "set (map role (stored_history Map.empty)) \<subseteq> {User, Assistant} \<and>
   AIRun MODEL \<lparr>messages = [\<lparr>role = System, content = SYSTEM_PROMPT\<rparr>,
                             \<lparr>role = User, content = js ''hi''\<rparr>],
                max_tokens = 256, temperature = 6 / 10\<rparr>
     \<in> set (snd (snd (ChatRoom_fetch (canned_env (AIReturns (JObj [(js ''response'', JStr (js ''yo''))])))
                Map.empty (chat_post (say ''hi''))))) \<and>
   set (map role (stored_history (fst (snd (ChatRoom_fetch
                (canned_env (AIReturns (JObj [(js ''response'', JStr (js ''yo''))])))
                Map.empty (chat_post (say ''hi''))))))) \<subseteq> {User, Assistant}"
proof -
  let ?r = "ChatRoom_fetch (canned_env (AIReturns (JObj [(js ''response'', JStr (js ''yo''))])))
                Map.empty (chat_post (say ''hi''))"
  have run: "?r = (fst ?r, fst (snd ?r), snd (snd ?r))"
    by simp
  have clean: "\<forall>x \<in> set (stored_history Map.empty). role x \<noteq> System"
    by (simp add: stored_history_def)
  from C2_no_system_persisted [OF run clean]
  have "\<forall>x \<in> set (stored_history (fst (snd ?r))). role x = User \<or> role x = Assistant"
    by (rule conjunct1)
  then have "set (map role (stored_history (fst (snd ?r)))) \<subseteq> {User, Assistant}"
    by auto
  moreover have "set (map role (stored_history Map.empty)) \<subseteq> {User, Assistant}"
    by (simp add: stored_history_def)
  moreover have "AIRun MODEL \<lparr>messages = [\<lparr>role = System, content = SYSTEM_PROMPT\<rparr>,
                             \<lparr>role = User, content = js ''hi''\<rparr>],
                max_tokens = 256, temperature = 6 / 10\<rparr> \<in> set (snd (snd ?r))"
    by (simp add: ai_run)
  ultimately show ?thesis by blast
qed

text \<open>
  Claim C3. \<^verbatim>\<open>ChatRoom.fetch\<close> writes to the storage only where a reply was produced:
  the statuses are 200, 400, 405, 500 and 502; with any status but 200 the storage is what
  it was and nothing was written; a write means status 200 and a reply that is not empty.
  A method other than POST is answered 405, a body that is not JSON and a blank message
  400 (the two 502 answers are the subject of C7).
\<close>

theorem C3_write_only_on_success:
  assumes "ChatRoom_fetch env st req = (resp, st', evs)"
  shows "status resp \<in> {200, 400, 405, 500, 502} \<and>
         (status resp \<noteq> 200 \<longrightarrow> st' = st \<and> (\<forall>k h. StoragePut k h \<notin> set evs)) \<and>
         (\<forall>k h. StoragePut k h \<in> set evs \<longrightarrow>
            status resp = 200 \<and> (\<exists>r. r \<noteq> [] \<and> payload resp = JsonBody (JObj [(js ''reply'', JStr r)]))) \<and>
         (method req \<noteq> js ''POST'' \<longrightarrow> status resp = 405) \<and>
         (method req = js ''POST'' \<and> json_body req = None \<longrightarrow> status resp = 400) \<and>
         (\<forall>b. method req = js ''POST'' \<and> json_body req = Some b \<and>
              coerce_field b (js ''message'') = Inr [] \<longrightarrow> status resp = 400)"
proof (intro conjI allI impI)
  show "status resp \<in> {200, 400, 405, 500, 502}"
    using fetch_cases [OF assms] by auto
  show "st' = st" if "status resp \<noteq> 200"
    using fetch_cases [OF assms] that by auto
  show "StoragePut k h \<notin> set evs" if "status resp \<noteq> 200" for k h
    using fetch_cases [OF assms] that by auto
  show "status resp = 200" if "StoragePut k h \<in> set evs" for k h
    using assms that by (rule put_in_events)
  show "\<exists>r. r \<noteq> [] \<and> payload resp = JsonBody (JObj [(js ''reply'', JStr r)])"
    if "StoragePut k h \<in> set evs" for k h
  proof -
    from assms that obtain r where "r \<noteq> []" "payload resp = JsonBody (JObj [(js ''reply'', JStr r)])"
      by (rule put_in_events)
    then show ?thesis by blast
  qed
  show "status resp = 405" if "method req \<noteq> js ''POST''"
    using assms that by (auto simp: ChatRoom_fetch_def ChatRoom_try_def json_response_def)
  show "status resp = 400" if "method req = js ''POST'' \<and> json_body req = None"
    using assms that by (auto simp: ChatRoom_fetch_def ChatRoom_try_def json_response_def)
  show "status resp = 400"
    if "method req = js ''POST'' \<and> json_body req = Some b \<and> coerce_field b (js ''message'') = Inr []" for b
    using assms that by (auto simp: ChatRoom_fetch_def ChatRoom_try_def json_response_def)
qed

lemma get_run:
  "ChatRoom_fetch dev_env twenty_stored
     \<lparr>method = js ''GET'', protocol = js ''https:'', pathname = js ''/chat'', cookie = None,
      json_body = None\<rparr> =
   (json_response 405 (JsonBody (error_obj ''Method not allowed'')), twenty_stored, [])"
  by (simp add: ChatRoom_fetch_def ChatRoom_try_def js_def)

text \<open>An instance of C3: a GET request leaves twenty stored entries as they are.\<close>

theorem C3_write_only_on_success_witness:
  "status (fst (ChatRoom_fetch dev_env twenty_stored
     \<lparr>method = js ''GET'', protocol = js ''https:'', pathname = js ''/chat'', cookie = None,
      json_body = None\<rparr>)) \<noteq> 200 \<and>
   fst (snd (ChatRoom_fetch dev_env twenty_stored
     \<lparr>method = js ''GET'', protocol = js ''https:'', pathname = js ''/chat'', cookie = None,
      json_body = None\<rparr>)) = twenty_stored"
proof -
  let ?r = "ChatRoom_fetch dev_env twenty_stored
     \<lparr>method = js ''GET'', protocol = js ''https:'', pathname = js ''/chat'', cookie = None,
      json_body = None\<rparr>"
  have run: "?r = (fst ?r, fst (snd ?r), snd (snd ?r))"
    by simp
  have ne: "status (fst ?r) \<noteq> 200"
    by (simp add: get_run json_response_def)
  from C3_write_only_on_success [OF run] ne have "fst (snd ?r) = twenty_stored"
    by blast
  with ne show ?thesis by blast
qed

text \<open>
  Claim C7. With an inference binding and a request that passes the validation: when the
  call throws, the answer is 502 with the error \<^verbatim>\<open>Workers AI call failed\<close> and the
  text of the exception as details; when the reply read from the result is empty after
  trimming, the answer is 502 with the error \<^verbatim>\<open>Empty AI response\<close> and the raw
  result. Nothing is written in either case.
\<close>

theorem C7_inference_errors:
  assumes "method req = js ''POST''" and "json_body req = Some b"
    and "coerce_field b (js ''message'') = Inr m" and "m \<noteq> []"
    and "AI env = Some run"
    and "p = \<lparr>messages = \<lparr>role = System, content = SYSTEM_PROMPT\<rparr> #
                 shift_loop (stored_history st @ [\<lparr>role = User, content = m\<rparr>]),
               max_tokens = 256, temperature = 6 / 10\<rparr>"
  shows "(\<forall>err. run MODEL p = AIThrows err \<longrightarrow>
            ChatRoom_fetch env st req =
              (json_response 502 (JsonBody (JObj [(js ''error'', JStr (js ''Workers AI call failed'')),
                                                  (js ''details'', JStr err)])),
               st, [StorageGet (js ''history''), AIRun MODEL p])) \<and>
         (\<forall>aiResult. run MODEL p = AIReturns aiResult \<longrightarrow>
            coerce_field aiResult (js ''response'') = Inr [] \<longrightarrow>
            ChatRoom_fetch env st req =
              (json_response 502 (JsonBody (JObj [(js ''error'', JStr (js ''Empty AI response'')),
                                                  (js ''aiResult'', aiResult)])),
               st, [StorageGet (js ''history''), AIRun MODEL p]))"
  by (simp add: fetch_valid [OF assms(1-4,6) refl] assms(5))


text \<open>An instance of C7: a binding that throws, and one that returns a blank reply.\<close>

theorem C7_inference_errors_witness:
  "ChatRoom_fetch (canned_env (AIThrows (js ''boom''))) Map.empty
     (chat_post (say ''hi'')) =
     (json_response 502 (JsonBody (JObj [(js ''error'', JStr (js ''Workers AI call failed'')),
                                         (js ''details'', JStr (js ''boom''))])),
      Map.empty,
      [StorageGet (js ''history''),
       AIRun MODEL \<lparr>messages = \<lparr>role = System, content = SYSTEM_PROMPT\<rparr> #
                       shift_loop (stored_history Map.empty @ [\<lparr>role = User, content = js ''hi''\<rparr>]),
                    max_tokens = 256, temperature = 6 / 10\<rparr>]) \<and>
   ChatRoom_fetch (canned_env (AIReturns (JObj [(js ''response'', JStr (js ''  ''))]))) Map.empty
     (chat_post (say ''hi'')) =
     (json_response 502 (JsonBody (JObj [(js ''error'', JStr (js ''Empty AI response'')),
                                         (js ''aiResult'', JObj [(js ''response'', JStr (js ''  ''))])])),
      Map.empty,
      [StorageGet (js ''history''),
       AIRun MODEL \<lparr>messages = \<lparr>role = System, content = SYSTEM_PROMPT\<rparr> #
                       shift_loop (stored_history Map.empty @ [\<lparr>role = User, content = js ''hi''\<rparr>]),
                    max_tokens = 256, temperature = 6 / 10\<rparr>])"
proof -
  have post: "method (chat_post (say ''hi'')) = js ''POST''"
    and body: "json_body (chat_post (say ''hi'')) =
                 Some (say ''hi'')"
    by (simp_all add: chat_post_def)
  have ne: "js ''hi'' \<noteq> []" by (simp add: js_def)
  have throws: "AI (canned_env (AIThrows (js ''boom''))) = Some (\<lambda>model params. AIThrows (js ''boom''))"
    and blank: "AI (canned_env (AIReturns (JObj [(js ''response'', JStr (js ''  ''))]))) =
                  Some (\<lambda>model params. AIReturns (JObj [(js ''response'', JStr (js ''  ''))]))"
    by (simp_all add: canned_env_def)
  from C7_inference_errors [OF post body coerce_hi ne throws refl]
       C7_inference_errors [OF post body coerce_hi ne blank refl] coerce_blank
  show ?thesis by blast
qed


section \<open>The reply without inference, and two exchanges in a row\<close>

lemma starts_with_append: "starts_with (ys @ zs) ys"
  by (induction ys) simp_all

lemma includes_str_self: "includes_str ys ys"
  using starts_with_append [of ys "[]"] by (cases ys) simp_all

lemma includes_str_append: "includes_str (xs @ ys) ys"
  by (induction xs) (simp_all add: includes_str_self)

lemma newest_newest: "m \<le> n \<Longrightarrow> newest m (newest n xs) = newest m xs"
proof -
  assume mn: "m \<le> n"
  have "newest m (newest n xs) = drop (length (drop (length xs - n) xs) - m + (length xs - n)) xs"
    by (simp only: newest_def drop_drop)
  also have "length (drop (length xs - n) xs) - m + (length xs - n) = length xs - m"
    using mn by simp
  finally show ?thesis by (simp only: newest_def)
qed

lemma coerce_string:
  "coerce_field (JObj [(js ''message'', JStr s)]) (js ''message'') = Inr (trim s)"
  by (simp add: coerce_field_def nullish_def)

lemma trim_padded_hi: "trim (js '' hi '') = js ''hi''"
  by (simp add: trim_def is_ws_def js_def)

lemma trim_yo: "trim (js ''yo'') = js ''yo''"
  by (simp add: trim_def is_ws_def js_def)

text \<open>An exchange without inference, for a message that is a string.\<close>

lemma dev_exchange:
  assumes "trim (js s) \<noteq> []"
  shows "ChatRoom_fetch dev_env st (chat_post (say s)) =
     (json_response 200 (JsonBody (JObj [(js ''reply'', JStr (js ''DEV MODE (no Workers AI). You said: '' @ trim (js s)))])),
      st(js ''history'' \<mapsto> newest 20 (stored_history st @
            [\<lparr>role = User, content = trim (js s)\<rparr>,
             \<lparr>role = Assistant, content = js ''DEV MODE (no Workers AI). You said: '' @ trim (js s)\<rparr>])),
      [StorageGet (js ''history''),
       StoragePut (js ''history'') (newest 20 (stored_history st @
            [\<lparr>role = User, content = trim (js s)\<rparr>,
             \<lparr>role = Assistant, content = js ''DEV MODE (no Workers AI). You said: '' @ trim (js s)\<rparr>]))])"
  by (subst fetch_valid [OF _ _ coerce_string assms refl refl])
     (simp_all add: chat_post_def dev_env_def say_def)

lemma dev_padded_hi:
  "ChatRoom_fetch dev_env Map.empty (chat_post (say '' hi '')) =
     (json_response 200 (JsonBody (JObj [(js ''reply'', JStr (js ''DEV MODE (no Workers AI). You said: hi''))])),
      [js ''history'' \<mapsto>
         [\<lparr>role = User, content = js ''hi''\<rparr>,
          \<lparr>role = Assistant, content = js ''DEV MODE (no Workers AI). You said: hi''\<rparr>]],
      [StorageGet (js ''history''),
       StoragePut (js ''history'')
         [\<lparr>role = User, content = js ''hi''\<rparr>,
          \<lparr>role = Assistant, content = js ''DEV MODE (no Workers AI). You said: hi''\<rparr>]])"
proof -
  have ne: "trim (js '' hi '') \<noteq> []" by (simp add: trim_def is_ws_def js_def)
  have app: "js ''DEV MODE (no Workers AI). You said: '' @ js ''hi'' =
             js ''DEV MODE (no Workers AI). You said: hi''"
    by (simp add: js_def)
  show ?thesis
    by (simp add: dev_exchange [OF ne] trim_padded_hi app newest_def stored_history_def)
qed

lemma dev_then_yo:
  "ChatRoom_fetch dev_env
     [js ''history'' \<mapsto>
         [\<lparr>role = User, content = js ''hi''\<rparr>,
          \<lparr>role = Assistant, content = js ''DEV MODE (no Workers AI). You said: hi''\<rparr>]]
     (chat_post (say ''yo'')) =
     (json_response 200 (JsonBody (JObj [(js ''reply'', JStr (js ''DEV MODE (no Workers AI). You said: yo''))])),
      [js ''history'' \<mapsto>
         [\<lparr>role = User, content = js ''hi''\<rparr>,
          \<lparr>role = Assistant, content = js ''DEV MODE (no Workers AI). You said: hi''\<rparr>,
          \<lparr>role = User, content = js ''yo''\<rparr>,
          \<lparr>role = Assistant, content = js ''DEV MODE (no Workers AI). You said: yo''\<rparr>]],
      [StorageGet (js ''history''),
       StoragePut (js ''history'')
         [\<lparr>role = User, content = js ''hi''\<rparr>,
          \<lparr>role = Assistant, content = js ''DEV MODE (no Workers AI). You said: hi''\<rparr>,
          \<lparr>role = User, content = js ''yo''\<rparr>,
          \<lparr>role = Assistant, content = js ''DEV MODE (no Workers AI). You said: yo''\<rparr>]])"
proof -
  have ne: "trim (js ''yo'') \<noteq> []" by (simp add: trim_def is_ws_def js_def)
  have app: "js ''DEV MODE (no Workers AI). You said: '' @ js ''yo'' =
             js ''DEV MODE (no Workers AI). You said: yo''"
    by (simp add: js_def)
  show ?thesis
    by (simp add: dev_exchange [OF ne] trim_yo app newest_def stored_history_def)
qed

text \<open>
  Claim C6, as amended. For every request that passes the validation when no inference
  binding is configured, \<^verbatim>\<open>ChatRoom.fetch\<close> makes no inference call (its effects are
  one read and one write of the storage) and answers 200 with the reply
  \<^verbatim>\<open>DEV MODE (no Workers AI). You said: \<close> followed by the message as read, that is
  coerced to a string and trimmed; the reply contains that trimmed message, which for a
  message that is a string \<open>s\<close> is \<open>trim s\<close>, so that a string without whitespace
  at its ends is contained as it was sent.
\<close>

theorem C6_dev_mode_reply:
  assumes "AI env = None" and "method req = js ''POST''" and "json_body req = Some b"
    and "coerce_field b (js ''message'') = Inr m" and "m \<noteq> []"
  shows "ChatRoom_fetch env st req =
           (json_response 200
              (JsonBody (JObj [(js ''reply'', JStr (js ''DEV MODE (no Workers AI). You said: '' @ m))])),
            st(js ''history'' \<mapsto> newest 20 (stored_history st @
                 [\<lparr>role = User, content = m\<rparr>,
                  \<lparr>role = Assistant, content = js ''DEV MODE (no Workers AI). You said: '' @ m\<rparr>])),
            [StorageGet (js ''history''),
             StoragePut (js ''history'') (newest 20 (stored_history st @
                 [\<lparr>role = User, content = m\<rparr>,
                  \<lparr>role = Assistant, content = js ''DEV MODE (no Workers AI). You said: '' @ m\<rparr>]))]) \<and>
         includes_str (js ''DEV MODE (no Workers AI). You said: '' @ m) m \<and>
         (\<forall>s. opt_get b (js ''message'') = JStr s \<longrightarrow> m = trim s)"
proof (intro conjI allI impI)
  show "includes_str (js ''DEV MODE (no Workers AI). You said: '' @ m) m"
    by (rule includes_str_append)
  show "m = trim s" if "opt_get b (js ''message'') = JStr s" for s
    using assms(4) that by (simp add: coerce_field_def nullish_def)
qed (simp add: fetch_valid [OF assms(2-5) refl refl] assms(1))

text \<open>An instance of C6: the message \<^verbatim>\<open>" hi "\<close> on the empty storage.\<close>

theorem C6_dev_mode_reply_witness:
  "ChatRoom_fetch dev_env Map.empty (chat_post (say '' hi '')) =
     (json_response 200
        (JsonBody (JObj [(js ''reply'', JStr (js ''DEV MODE (no Workers AI). You said: '' @ js ''hi''))])),
      [js ''history'' \<mapsto> newest 20 (stored_history Map.empty @
           [\<lparr>role = User, content = js ''hi''\<rparr>,
            \<lparr>role = Assistant, content = js ''DEV MODE (no Workers AI). You said: '' @ js ''hi''\<rparr>])],
      [StorageGet (js ''history''),
       StoragePut (js ''history'') (newest 20 (stored_history Map.empty @
           [\<lparr>role = User, content = js ''hi''\<rparr>,
            \<lparr>role = Assistant, content = js ''DEV MODE (no Workers AI). You said: '' @ js ''hi''\<rparr>]))])"
proof -
  have none: "AI dev_env = None" by (simp add: dev_env_def)
  have post: "method (chat_post (say '' hi '')) = js ''POST''"
    and body: "json_body (chat_post (say '' hi '')) = Some (JObj [(js ''message'', JStr (js '' hi ''))])"
    by (simp_all add: chat_post_def say_def)
  have msg: "coerce_field (JObj [(js ''message'', JStr (js '' hi ''))]) (js ''message'') = Inr (js ''hi'')"
    by (simp add: coerce_string trim_padded_hi)
  have ne: "js ''hi'' \<noteq> []" by (simp add: js_def)
  from C6_dev_mode_reply [OF none post body msg ne] show ?thesis
    by (rule conjunct1)
qed

text \<open>
  Claim C6 as it is written says that the reply always contains the original message.
  For the message \<^verbatim>\<open>" hi "\<close> the answer is 200 and the reply is
  \<^verbatim>\<open>DEV MODE (no Workers AI). You said: hi\<close>, which does not contain \<^verbatim>\<open>" hi "\<close>.
\<close>

theorem C6_padded_message_counterexample:
  "status (fst (ChatRoom_fetch dev_env Map.empty (chat_post (say '' hi '')))) = 200 \<and>
   payload (fst (ChatRoom_fetch dev_env Map.empty (chat_post (say '' hi '')))) =
     JsonBody (JObj [(js ''reply'', JStr (js ''DEV MODE (no Workers AI). You said: hi''))]) \<and>
   \<not> includes_str (js ''DEV MODE (no Workers AI). You said: hi'') (js '' hi '')"
proof -
  have "\<not> includes_str (js ''DEV MODE (no Workers AI). You said: hi'') (js '' hi '')"
    by (simp add: js_def)
  then show ?thesis
    by (simp add: dev_padded_hi json_response_def)
qed

text \<open>
  Claim C8, as amended. For every stored history and every two requests answered 200 one
  after the other, with \<open>M1\<close> and \<open>M2\<close> the messages as read (coerced to a string
  and trimmed, not empty) and \<open>R1\<close> and \<open>R2\<close> the replies sent back: the stored
  history afterwards is the newest 20 entries of the previous history followed by
  user \<open>M1\<close>, assistant \<open>R1\<close>, user \<open>M2\<close>, assistant \<open>R2\<close>, and these four are its
  last entries, in that order.
\<close>

theorem C8_two_exchanges:
  assumes "ChatRoom_fetch env1 st req1 = (resp1, st1, evs1)" and "status resp1 = 200"
    and "ChatRoom_fetch env2 st1 req2 = (resp2, st2, evs2)" and "status resp2 = 200"
  shows "\<exists>b1 b2 M1 M2 R1 R2.
           json_body req1 = Some b1 \<and> coerce_field b1 (js ''message'') = Inr M1 \<and> M1 \<noteq> [] \<and>
           json_body req2 = Some b2 \<and> coerce_field b2 (js ''message'') = Inr M2 \<and> M2 \<noteq> [] \<and>
           payload resp1 = JsonBody (JObj [(js ''reply'', JStr R1)]) \<and>
           payload resp2 = JsonBody (JObj [(js ''reply'', JStr R2)]) \<and>
           stored_history st2 = newest 20 (stored_history st @
             [\<lparr>role = User, content = M1\<rparr>, \<lparr>role = Assistant, content = R1\<rparr>,
              \<lparr>role = User, content = M2\<rparr>, \<lparr>role = Assistant, content = R2\<rparr>]) \<and>
           newest 4 (stored_history st2) =
             [\<lparr>role = User, content = M1\<rparr>, \<lparr>role = Assistant, content = R1\<rparr>,
              \<lparr>role = User, content = M2\<rparr>, \<lparr>role = Assistant, content = R2\<rparr>]"
proof -
  from fetch_cases [OF assms(1)] assms(2) obtain b1 M1 R1 where
    one: "json_body req1 = Some b1" "coerce_field b1 (js ''message'') = Inr M1" "M1 \<noteq> []"
      "payload resp1 = JsonBody (JObj [(js ''reply'', JStr R1)])"
      "st1 = st(js ''history'' \<mapsto> newest 20 (stored_history st @
                [\<lparr>role = User, content = M1\<rparr>, \<lparr>role = Assistant, content = R1\<rparr>]))"
    by auto
  from fetch_cases [OF assms(3)] assms(4) obtain b2 M2 R2 where
    two: "json_body req2 = Some b2" "coerce_field b2 (js ''message'') = Inr M2" "M2 \<noteq> []"
      "payload resp2 = JsonBody (JObj [(js ''reply'', JStr R2)])"
      "st2 = st1(js ''history'' \<mapsto> newest 20 (stored_history st1 @
                [\<lparr>role = User, content = M2\<rparr>, \<lparr>role = Assistant, content = R2\<rparr>]))"
    by auto
  let ?four = "[\<lparr>role = User, content = M1\<rparr>, \<lparr>role = Assistant, content = R1\<rparr>,
              \<lparr>role = User, content = M2\<rparr>, \<lparr>role = Assistant, content = R2\<rparr>]"
  have "stored_history st2 = newest 20 (newest 20 (stored_history st @
                [\<lparr>role = User, content = M1\<rparr>, \<lparr>role = Assistant, content = R1\<rparr>]) @
                [\<lparr>role = User, content = M2\<rparr>, \<lparr>role = Assistant, content = R2\<rparr>])"
    by (simp add: two(5) one(5) stored_history_update)
  then have all: "stored_history st2 = newest 20 (stored_history st @ ?four)"
    by (simp add: newest_append)
  have "newest 4 (stored_history st2) = newest 4 (stored_history st @ ?four)"
    unfolding all by (rule newest_newest) simp
  also have "\<dots> = ?four"
    by (simp add: newest_def)
  finally have last4: "newest 4 (stored_history st2) = ?four" .
  from one(1-4) two(1-4) all last4 show ?thesis by blast
qed

text \<open>
  An instance of C8: the messages \<^verbatim>\<open>" hi "\<close> and \<^verbatim>\<open>"yo"\<close> without inference, from
  the empty storage; the messages read are \<^verbatim>\<open>"hi"\<close> and \<^verbatim>\<open>"yo"\<close>.
\<close>

theorem C8_two_exchanges_witness:
  "status (fst (ChatRoom_fetch dev_env Map.empty (chat_post (say '' hi '')))) = 200 \<and>
   status (fst (ChatRoom_fetch dev_env
      (fst (snd (ChatRoom_fetch dev_env Map.empty (chat_post (say '' hi '')))))
      (chat_post (say ''yo'')))) = 200 \<and>
   map content (newest 4 (stored_history (fst (snd (ChatRoom_fetch dev_env
      (fst (snd (ChatRoom_fetch dev_env Map.empty (chat_post (say '' hi '')))))
      (chat_post (say ''yo''))))))) =
     [js ''hi'', js ''DEV MODE (no Workers AI). You said: hi'',
      js ''yo'', js ''DEV MODE (no Workers AI). You said: yo'']"
proof -
  let ?r1 = "ChatRoom_fetch dev_env Map.empty (chat_post (say '' hi ''))"
  let ?r2 = "ChatRoom_fetch dev_env (fst (snd ?r1)) (chat_post (say ''yo''))"
  have run1: "?r1 = (fst ?r1, fst (snd ?r1), snd (snd ?r1))" by simp
  have run2: "?r2 = (fst ?r2, fst (snd ?r2), snd (snd ?r2))" by simp
  have ok1: "status (fst ?r1) = 200"
    by (simp add: dev_padded_hi json_response_def)
  have ok2: "status (fst ?r2) = 200"
    by (simp add: dev_padded_hi dev_then_yo json_response_def)
  from C8_two_exchanges [OF run1 ok1 run2 ok2] obtain b1 b2 M1 M2 R1 R2 where
    b1: "json_body (chat_post (say '' hi '')) = Some b1" and
    m1: "coerce_field b1 (js ''message'') = Inr M1" and
    b2: "json_body (chat_post (say ''yo'')) = Some b2" and
    m2: "coerce_field b2 (js ''message'') = Inr M2" and
    r1: "payload (fst ?r1) = JsonBody (JObj [(js ''reply'', JStr R1)])" and
    r2: "payload (fst ?r2) = JsonBody (JObj [(js ''reply'', JStr R2)])" and
    last4: "newest 4 (stored_history (fst (snd ?r2))) =
             [\<lparr>role = User, content = M1\<rparr>, \<lparr>role = Assistant, content = R1\<rparr>,
              \<lparr>role = User, content = M2\<rparr>, \<lparr>role = Assistant, content = R2\<rparr>]"
    by blast
  from b1 m1 have M1: "M1 = js ''hi''"
    by (auto simp: chat_post_def say_def coerce_string trim_padded_hi)
  from b2 m2 have M2: "M2 = js ''yo''"
    by (auto simp: chat_post_def say_def coerce_string trim_yo)
  from r1 have R1: "R1 = js ''DEV MODE (no Workers AI). You said: hi''"
    by (simp add: dev_padded_hi json_response_def)
  from r2 have R2: "R2 = js ''DEV MODE (no Workers AI). You said: yo''"
    by (simp add: dev_padded_hi dev_then_yo json_response_def)
  from last4 have "map content (newest 4 (stored_history (fst (snd ?r2)))) = [M1, R1, M2, R2]"
    by simp
  with ok1 ok2 M1 M2 R1 R2 show ?thesis by simp
qed

text \<open>
  Claim C8 as it is written takes \<open>M1\<close> to be the message sent. For the messages
  \<^verbatim>\<open>" hi "\<close> and \<^verbatim>\<open>"yo"\<close> the stored history afterwards begins with the user entry
  \<^verbatim>\<open>"hi"\<close>: the entry stored is the trimmed message, not the message sent.
\<close>

theorem C8_padded_message_counterexample:
  "stored_history (fst (snd (ChatRoom_fetch dev_env
      (fst (snd (ChatRoom_fetch dev_env Map.empty (chat_post (say '' hi '')))))
      (chat_post (say ''yo''))))) =
     [\<lparr>role = User, content = js ''hi''\<rparr>,
      \<lparr>role = Assistant, content = js ''DEV MODE (no Workers AI). You said: hi''\<rparr>,
      \<lparr>role = User, content = js ''yo''\<rparr>,
      \<lparr>role = Assistant, content = js ''DEV MODE (no Workers AI). You said: yo''\<rparr>] \<and>
   \<lparr>role = User, content = js ''hi''\<rparr> \<noteq> \<lparr>role = User, content = js '' hi ''\<rparr>"
proof -
  have "js ''hi'' \<noteq> js '' hi ''" by (simp add: js_def)
  then show ?thesis
    by (simp add: dev_padded_hi dev_then_yo stored_history_def)
qed

section \<open>Properties of the router\<close>

lemma method_distinct: "js ''POST'' \<noteq> js ''GET''"
  by (simp add: js_def)

lemma header_names_distinct: "js ''set-cookie'' \<noteq> js ''content-type''"
  by (simp add: js_def)

lemma makeSessionCookie_nonempty: "makeSessionCookie u secure = Inr c \<Longrightarrow> c \<noteq> []"
  by (auto simp: makeSessionCookie_def js_def split: sum.splits)

lemma session_of_fresh:
  assumes "getCookie req (js ''session'') = Inr None \<or> getCookie req (js ''session'') = Inr (Some [])"
  shows "session_of rt req =
           (case makeSessionCookie (randomUUID rt) (protocol req = js ''https:'') of
              Inl e \<Rightarrow> Inl e
            | Inr c \<Rightarrow> Inr (randomUUID rt, Some c))"
  using assms by (auto simp: session_of_def Let_def)

lemma worker_post:
  assumes "method req = js ''POST''" "pathname req = js ''/api/chat''"
  shows "worker_fetch rt env req =
           (case session_of rt req of
              Inl e \<Rightarrow> (Inl e, [])
            | Inr (sessionId, setCookie) \<Rightarrow> forward_chat rt env req sessionId setCookie)"
  using assms by (simp add: worker_fetch_def method_distinct)

lemma forward_chat_cookie:
  assumes "forward_chat rt env req sid (Some c) = (Inr resp, evs)" "c \<noteq> []"
  shows "(js ''set-cookie'' \<in> fst ` set (headers resp)) = (status resp = 200) \<and>
         (status resp = 200 \<longrightarrow>
            headers resp = [(js ''content-type'', js ''application/json''), (js ''set-cookie'', c)]) \<and>
         (\<forall>name r. DOFetch name r \<in> set evs \<longrightarrow> name = sid)"
  using assms
  by (auto simp: forward_chat_def Let_def json_response_def cookie_header_def Response_json_def
        do_ok_def header_names_distinct
      split: option.splits sum.splits if_splits stub_outcome.splits)

text \<open>
  Claim C5. For every \<^verbatim>\<open>POST /api/chat\<close> request that arrives without a session
  cookie (\<^verbatim>\<open>getCookie\<close> returns \<^verbatim>\<open>null\<close> or the empty string) and every response the
  router gives: the response carries a \<^verbatim>\<open>set-cookie\<close> header exactly when its status
  is 200; on 200 the header is the cookie made for the identifier that
  \<^verbatim>\<open>crypto.randomUUID()\<close> returned; and a call to a holder, if one was made, addressed
  that new identifier. Every other response (400, 502, a status passed on from the
  holder) has no such header.
\<close>

theorem C5_cookie_only_on_success:
  assumes "method req = js ''POST''" and "pathname req = js ''/api/chat''"
    and "getCookie req (js ''session'') = Inr None \<or> getCookie req (js ''session'') = Inr (Some [])"
    and "worker_fetch rt env req = (Inr resp, evs)"
  shows "(js ''set-cookie'' \<in> fst ` set (headers resp)) = (status resp = 200) \<and>
         (status resp = 200 \<longrightarrow>
            (\<exists>c. makeSessionCookie (randomUUID rt) (protocol req = js ''https:'') = Inr c \<and>
                 headers resp = [(js ''content-type'', js ''application/json''), (js ''set-cookie'', c)])) \<and>
         (\<forall>name r. DOFetch name r \<in> set evs \<longrightarrow> name = randomUUID rt)"
proof -
  from assms(4) obtain c where
    mint: "makeSessionCookie (randomUUID rt) (protocol req = js ''https:'') = Inr c" and
    fwd: "forward_chat rt env req (randomUUID rt) (Some c) = (Inr resp, evs)"
    by (auto simp: worker_post [OF assms(1,2)] session_of_fresh [OF assms(3)] split: sum.splits)
  from forward_chat_cookie [OF fwd makeSessionCookie_nonempty [OF mint]] mint
  show ?thesis by blast
qed

lemma encode_unescaped: "\<forall>c \<in> set s. unescaped c \<Longrightarrow> Encode s = Inr s"
  by (induction s) simp_all

lemma demo_cookie:
  "makeSessionCookie (js ''123e4567-e89b-42d3-a456-426614174000'') True =
     Inr (js ''session=123e4567-e89b-42d3-a456-426614174000; Path=/; HttpOnly; SameSite=Lax; Max-Age=2592000; Secure'')"
proof -
  have "Encode (js ''123e4567-e89b-42d3-a456-426614174000'') = Inr (js ''123e4567-e89b-42d3-a456-426614174000'')"
    by (rule encode_unescaped) (simp add: js_def unescaped_def)
  then show ?thesis
    by (simp add: makeSessionCookie_def encodeURIComponent_def) (simp add: js_def)
qed

lemma demo_session:
  "session_of demo_runtime (api_post None b) =
     Inr (js ''123e4567-e89b-42d3-a456-426614174000'',
          Some (js ''session=123e4567-e89b-42d3-a456-426614174000; Path=/; HttpOnly; SameSite=Lax; Max-Age=2592000; Secure''))"
  by (simp add: session_of_def Let_def getCookie_def api_post_def demo_runtime_def demo_cookie)

lemma demo_success:
  "worker_fetch demo_runtime replying_env (api_post None (Some (say ''hi''))) =
     (Inr \<lparr>status = 200,
           headers = [(js ''content-type'', js ''application/json''),
                      (js ''set-cookie'', js ''session=123e4567-e89b-42d3-a456-426614174000; Path=/; HttpOnly; SameSite=Lax; Max-Age=2592000; Secure'')],
           payload = JsonBody (JObj [(js ''reply'', JStr (js ''yo''))])\<rparr>,
      [DOFetch (js ''123e4567-e89b-42d3-a456-426614174000'') (holder_request (js ''hi''))])"
proof -
  have post: "method (api_post None (Some (say ''hi''))) = js ''POST''"
    and path: "pathname (api_post None (Some (say ''hi''))) = js ''/api/chat''"
    by (simp_all add: api_post_def)
  have ne: "js ''hi'' \<noteq> []" by (simp add: js_def)
  have inc: "includes_str (js ''application/json'') (js ''application/json'')"
    by (rule includes_str_self)
  have ck: "js ''session=123e4567-e89b-42d3-a456-426614174000; Path=/; HttpOnly; SameSite=Lax; Max-Age=2592000; Secure'' \<noteq> []"
    by (simp add: js_def)
  show ?thesis
    unfolding worker_post [OF post path] demo_session
    by (simp add: forward_chat_def api_post_def coerce_hi ne replying_env_def inc demo_runtime_def
        do_ok_def get_prop_def cookie_header_def ck)
qed


lemma demo_invalid_json:
  "worker_fetch demo_runtime replying_env (api_post None None) =
     (Inr (json_response 400 (JsonBody (error_obj ''Invalid JSON''))), [])"
proof -
  have post: "method (api_post None None) = js ''POST''"
    and path: "pathname (api_post None None) = js ''/api/chat''"
    by (simp_all add: api_post_def)
  show ?thesis
    unfolding worker_post [OF post path] demo_session
    by (simp add: forward_chat_def api_post_def)
qed

lemma no_cookie: "getCookie (api_post None b) (js ''session'') = Inr None"
  by (simp add: getCookie_def api_post_def)

text \<open>
  An instance of C5: a request without cookie that the holder answers, and one whose body
  is not JSON.
\<close>

theorem C5_cookie_only_on_success_witness:
  "status (projr (fst (worker_fetch demo_runtime replying_env (api_post None (Some (say ''hi'')))))) = 200 \<and>
   js ''set-cookie'' \<in> fst ` set (headers (projr (fst
      (worker_fetch demo_runtime replying_env (api_post None (Some (say ''hi''))))))) \<and>
   status (projr (fst (worker_fetch demo_runtime replying_env (api_post None None)))) = 400 \<and>
   js ''set-cookie'' \<notin> fst ` set (headers (projr (fst
      (worker_fetch demo_runtime replying_env (api_post None None)))))"
proof -
  have post: "method (api_post None b) = js ''POST''"
    and path: "pathname (api_post None b) = js ''/api/chat''" for b
    by (simp_all add: api_post_def)
  have absent: "getCookie (api_post None b) (js ''session'') = Inr None \<or>
                getCookie (api_post None b) (js ''session'') = Inr (Some [])" for b
    by (simp add: no_cookie)
  have ok: "status (projr (fst (worker_fetch demo_runtime replying_env (api_post None (Some (say ''hi'')))))) = 200"
    by (simp add: demo_success)
  have bad: "status (projr (fst (worker_fetch demo_runtime replying_env (api_post None None)))) = 400"
    by (simp add: demo_invalid_json json_response_def)
  from C5_cookie_only_on_success [OF post path absent demo_success] ok
  have "js ''set-cookie'' \<in> fst ` set (headers (projr (fst
      (worker_fetch demo_runtime replying_env (api_post None (Some (say ''hi'')))))))"
    by (simp add: demo_success)
  moreover
  from C5_cookie_only_on_success [OF post path absent demo_invalid_json] bad
  have "js ''set-cookie'' \<notin> fst ` set (headers (projr (fst
      (worker_fetch demo_runtime replying_env (api_post None None)))))"
    by (simp add: demo_invalid_json)
  ultimately show ?thesis using ok bad by blast
qed

text \<open>
  Claim C4 at a request whose body is not JSON and whose header is
  \<^verbatim>\<open>Cookie: session=%\<close>: \<^verbatim>\<open>getCookie\<close> calls \<^verbatim>\<open>decodeURIComponent("%")\<close>, which
  throws a URIError that nothing in the router catches, so the handler gives no response
  at all, where the claim says 400.
\<close>

theorem C4_malformed_cookie:
  "worker_fetch rt env (api_post (Some (js ''session=%'')) None) = (Inl URIError, [])"
proof -
  have post: "method (api_post (Some (js ''session=%'')) None) = js ''POST''"
    and path: "pathname (api_post (Some (js ''session=%'')) None) = js ''/api/chat''"
    by (simp_all add: api_post_def)
  have "getCookie (api_post (Some (js ''session=%'')) None) (js ''session'') = Inl URIError"
    by (simp add: getCookie_def api_post_def js_def trim_def is_ws_def decodeURIComponent_def)
  then show ?thesis
    unfolding worker_post [OF post path] by (simp add: session_of_def)
qed

text \<open>
  What holds of C4: in the holder always, and in the router once the session is settled
  (no exception from the cookie helpers), a body that is not JSON and a message that is
  missing or blank are answered 400 before any effect.
\<close>

lemma validation_before_effects:
  assumes "method req = js ''POST''"
    and "json_body req = None \<or> (\<exists>b. json_body req = Some b \<and> coerce_field b (js ''message'') = Inr [])"
  shows "\<exists>resp. ChatRoom_fetch env st req = (resp, st, []) \<and> status resp = 400"
    and "pathname req = js ''/api/chat'' \<Longrightarrow> session_of rt req = Inr (sid, sc) \<Longrightarrow>
           \<exists>resp. worker_fetch rt env req = (Inr resp, []) \<and> status resp = 400"
proof -
  show "\<exists>resp. ChatRoom_fetch env st req = (resp, st, []) \<and> status resp = 400"
    using assms by (auto simp: ChatRoom_fetch_def ChatRoom_try_def json_response_def)
  show "\<exists>resp. worker_fetch rt env req = (Inr resp, []) \<and> status resp = 400"
    if "pathname req = js ''/api/chat''" "session_of rt req = Inr (sid, sc)"
    using assms(2) that(2)
    by (auto simp: worker_post [OF assms(1) that(1)] forward_chat_def json_response_def)
qed

lemma coerce_five:
  "coerce_field (JObj [(js ''message'', JNum (js ''5''))]) (js ''message'') = Inr (js ''5'')"
  by (simp add: coerce_field_def nullish_def trim_def is_ws_def js_def)

text \<open>Trimming twice is trimming once, so a coerced message is its own trim.\<close>

lemma trim_trim: "trim (trim s) = trim s"
proof -
  define t where "t = dropWhile is_ws s"
  define u where "u = rev (dropWhile is_ws (rev t))"
  have tu: "trim s = u" by (simp add: trim_def t_def u_def)
  have rear: "dropWhile is_ws (rev u) = rev u"
    by (simp add: u_def)
  have split: "t = u @ rev (takeWhile is_ws (rev t))"
  proof -
    have "u @ rev (takeWhile is_ws (rev t)) =
            rev (takeWhile is_ws (rev t) @ dropWhile is_ws (rev t))"
      by (simp only: u_def rev_append)
    also have "\<dots> = rev (rev t)" by (simp only: takeWhile_dropWhile_id)
    finally show ?thesis by simp
  qed
  have front: "dropWhile is_ws u = u"
  proof (cases u)
    case Nil
    then show ?thesis by simp
  next
    case (Cons x xs)
    with split have "\<exists>ys. t = x # ys" by (cases t) auto
    then obtain ys where "t = x # ys" ..
    then have "hd t = x" "t \<noteq> []" by simp_all
    moreover have "\<not> is_ws (hd t)" if "t \<noteq> []"
      using that unfolding t_def by (rule hd_dropWhile)
    ultimately have "\<not> is_ws x" by simp
    with Cons show ?thesis by simp
  qed
  show ?thesis unfolding tu by (simp add: trim_def front rear)
qed

lemma coerce_trimmed: "coerce_field b k = Inr m \<Longrightarrow> trim m = m"
  by (auto simp: coerce_field_def trim_trim split: sum.splits)

lemma toString_error:
  "toString v = Inl e \<Longrightarrow> e = TypeError"
  "elems_toString vs = Inl e \<Longrightarrow> e = TypeError"
  by (induction v and vs arbitrary: e and e rule: toString_elems_toString.induct)
     (auto split: sum.splits if_splits)

lemma toString_own_property:
  "js ''toString'' \<in> fst ` set kvs \<Longrightarrow> toString (JObj kvs) = Inl TypeError"
  by simp

lemma elems_toString_holding:
  "JObj kvs \<in> set xs \<Longrightarrow> js ''toString'' \<in> fst ` set kvs \<Longrightarrow> elems_toString xs = Inl TypeError"
proof (induction xs)
  case Nil
  then show ?case by simp
next
  case (Cons x xs)
  show ?case
  proof (cases "x = JObj kvs")
    case True
    with Cons.prems(2) show ?thesis by simp
  next
    case False
    with Cons have rest: "elems_toString xs = Inl TypeError" by simp
    show ?thesis
      using rest toString_error(1) [of x]
      by (auto split: sum.splits)
  qed
qed

text \<open>
  The holder answers 400 exactly on an empty coerced message, so the message the router
  forwards (not empty, trimmed) never comes back with 400.
\<close>

lemma holder_400:
  assumes "method req = js ''POST''" "json_body req = Some b"
  shows "(status (fst (ChatRoom_fetch env st req)) = 400) = (coerce_field b (js ''message'') = Inr [])"
  using assms
  by (auto simp: ChatRoom_fetch_def ChatRoom_try_def Let_def json_response_def
      split: sum.splits option.splits ai_outcome.splits)

lemma forwarded_not_400:
  assumes "m \<noteq> []" "trim m = m"
  shows "status (fst (ChatRoom_fetch env st (holder_request m))) \<noteq> 400"
proof -
  have "method (holder_request m) = js ''POST''"
    "json_body (holder_request m) = Some (JObj [(js ''message'', JStr m)])"
    by (simp_all add: holder_request_def)
  from holder_400 [OF this] assms show ?thesis
    by (simp add: coerce_string)
qed

lemma forward_chat_outcome:
  assumes "json_body req = Some b" "coerce_field b (js ''message'') = Inr m" "m \<noteq> []"
    and "forward_chat rt env req sid sc = (Inr resp, evs)"
  shows "evs = [DOFetch sid (holder_request m)] \<and>
         (status resp = 502 \<or> status resp = 200 \<or>
          (\<exists>d. CHATROOMS env sid (holder_request m) = StubResponds d \<and> status resp = do_status d))"
  using assms
  by (auto simp: forward_chat_def Let_def json_response_def Response_json_def
      split: stub_outcome.splits option.splits if_splits sum.splits)

lemma router_400_only:
  assumes "method req = js ''POST''" "pathname req = js ''/api/chat''" "json_body req = Some b"
    and holder: "\<forall>name r. (\<exists>err. CHATROOMS env name r = StubThrows err) \<or>
                   CHATROOMS env name r = holder_stub render henv stores name r"
    and "fst (worker_fetch rt env req) = Inr resp" "status resp = 400"
  shows "coerce_field b (js ''message'') = Inr []"
proof (rule ccontr)
  assume not: "coerce_field b (js ''message'') \<noteq> Inr []"
  from assms(5) obtain sid sc evs where
    fwd: "forward_chat rt env req sid sc = (Inr resp, evs)"
    unfolding worker_post [OF assms(1,2)]
    by (cases "forward_chat rt env req (fst (projr (session_of rt req))) (snd (projr (session_of rt req)))")
       (auto split: sum.splits prod.splits)
  from fwd assms(3) not obtain m where m: "coerce_field b (js ''message'') = Inr m" "m \<noteq> []"
    by (cases "coerce_field b (js ''message'')") (auto simp: forward_chat_def)
  from forward_chat_outcome [OF assms(3) m fwd] assms(6) obtain d where
    d: "CHATROOMS env sid (holder_request m) = StubResponds d" "do_status d = 400"
    by auto
  from holder d(1) have "StubResponds d = holder_stub render henv stores sid (holder_request m)"
    by (metis stub_outcome.distinct(1))
  then have "do_status d = status (fst (ChatRoom_fetch henv (stores sid) (holder_request m)))"
    by (simp add: holder_stub_def Let_def)
  with forwarded_not_400 [OF m(2) coerce_trimmed [OF m(1)]] d(2) show False by simp
qed

text \<open>
  Claim C9, as amended. A message that is not a string is not rejected for its type: both
  handlers coerce it with \<^verbatim>\<open>toString()\<close> and trim it. For a POST request with a JSON
  body: the holder answers 400 exactly when the coerced, trimmed message is the empty
  string, and for any other coerced message it goes on to read the history. The router,
  in front of a holder that runs \<^verbatim>\<open>ChatRoom.fetch\<close> or cannot be reached, answers 400
  only when the coerced, trimmed message is empty, and exactly then once the session is
  settled; any other coerced message it sends to the holder. \<^verbatim>\<open>{"message": 5}\<close> is
  coerced to \<^verbatim>\<open>"5"\<close>. \<^verbatim>\<open>toString()\<close> cannot be called on an object that has an own
  property named \<^verbatim>\<open>toString\<close>, nor on an array holding such an object: the coercion
  then throws a TypeError.
\<close>

theorem C9_coercion:
  assumes "method req = js ''POST''" and "json_body req = Some b"
  shows "((status (fst (ChatRoom_fetch henv st req)) = 400) = (coerce_field b (js ''message'') = Inr [])) \<and>
         (\<forall>m. coerce_field b (js ''message'') = Inr m \<longrightarrow> m \<noteq> [] \<longrightarrow>
              (\<exists>evs. snd (snd (ChatRoom_fetch henv st req)) = StorageGet (js ''history'') # evs)) \<and>
         (pathname req = js ''/api/chat'' \<longrightarrow>
          (\<forall>name r. (\<exists>err. CHATROOMS env name r = StubThrows err) \<or>
                     CHATROOMS env name r = holder_stub render henv stores name r) \<longrightarrow>
            (\<forall>resp. fst (worker_fetch rt env req) = Inr resp \<longrightarrow> status resp = 400 \<longrightarrow>
                 coerce_field b (js ''message'') = Inr []) \<and>
            (\<forall>sid sc. session_of rt req = Inr (sid, sc) \<longrightarrow>
               ((\<exists>resp. fst (worker_fetch rt env req) = Inr resp \<and> status resp = 400) =
                (coerce_field b (js ''message'') = Inr [])) \<and>
               (\<forall>m. coerce_field b (js ''message'') = Inr m \<longrightarrow> m \<noteq> [] \<longrightarrow>
                    snd (worker_fetch rt env req) = [DOFetch sid (holder_request m)]))) \<and>
         coerce_field (JObj [(js ''message'', JNum (js ''5''))]) (js ''message'') = Inr (js ''5'') \<and>
         (\<forall>kvs. opt_get b (js ''message'') = JObj kvs \<longrightarrow> js ''toString'' \<in> fst ` set kvs \<longrightarrow>
              coerce_field b (js ''message'') = Inl TypeError) \<and>
         (\<forall>xs kvs. opt_get b (js ''message'') = JArr xs \<longrightarrow> JObj kvs \<in> set xs \<longrightarrow>
              js ''toString'' \<in> fst ` set kvs \<longrightarrow> coerce_field b (js ''message'') = Inl TypeError)"
proof (intro conjI allI impI)
  show "(status (fst (ChatRoom_fetch henv st req)) = 400) = (coerce_field b (js ''message'') = Inr [])"
    using assms by (rule holder_400)
  show "\<exists>evs. snd (snd (ChatRoom_fetch henv st req)) = StorageGet (js ''history'') # evs"
    if "coerce_field b (js ''message'') = Inr m" "m \<noteq> []" for m
    using assms that
    by (auto simp: ChatRoom_fetch_def ChatRoom_try_def Let_def
        split: sum.splits option.splits ai_outcome.splits)
  show "coerce_field b (js ''message'') = Inr []"
    if "pathname req = js ''/api/chat''"
      "\<forall>name r. (\<exists>err. CHATROOMS env name r = StubThrows err) \<or>
                 CHATROOMS env name r = holder_stub render henv stores name r"
      "fst (worker_fetch rt env req) = Inr resp" "status resp = 400" for resp
    using assms(1) that(1) assms(2) that(2-4) by (rule router_400_only)
  show "(\<exists>resp. fst (worker_fetch rt env req) = Inr resp \<and> status resp = 400) =
          (coerce_field b (js ''message'') = Inr [])"
    if "pathname req = js ''/api/chat''"
      "\<forall>name r. (\<exists>err. CHATROOMS env name r = StubThrows err) \<or>
                 CHATROOMS env name r = holder_stub render henv stores name r"
      "session_of rt req = Inr (sid, sc)" for sid sc
  proof
    assume "\<exists>resp. fst (worker_fetch rt env req) = Inr resp \<and> status resp = 400"
    then obtain resp where "fst (worker_fetch rt env req) = Inr resp" "status resp = 400" by blast
    with assms(1) that(1) assms(2) that(2) show "coerce_field b (js ''message'') = Inr []"
      by (rule router_400_only)
  next
    assume "coerce_field b (js ''message'') = Inr []"
    with assms(2) that(3) show "\<exists>resp. fst (worker_fetch rt env req) = Inr resp \<and> status resp = 400"
      by (simp add: worker_post [OF assms(1) that(1)] forward_chat_def json_response_def)
  qed
  show "snd (worker_fetch rt env req) = [DOFetch sid (holder_request m)]"
    if "pathname req = js ''/api/chat''" "session_of rt req = Inr (sid, sc)"
      "coerce_field b (js ''message'') = Inr m" "m \<noteq> []" for sid sc m
    using assms(2) that(2-4)
    by (auto simp: worker_post [OF assms(1) that(1)] forward_chat_def Let_def
        split: sum.splits option.splits stub_outcome.splits if_splits)
  show "coerce_field (JObj [(js ''message'', JNum (js ''5''))]) (js ''message'') = Inr (js ''5'')"
    by (rule coerce_five)
  show "coerce_field b (js ''message'') = Inl TypeError"
    if "opt_get b (js ''message'') = JObj kvs" "js ''toString'' \<in> fst ` set kvs" for kvs
    using that by (simp add: coerce_field_def nullish_def)
  show "coerce_field b (js ''message'') = Inl TypeError"
    if "opt_get b (js ''message'') = JArr xs" "JObj kvs \<in> set xs" "js ''toString'' \<in> fst ` set kvs"
    for xs kvs
    using that(1) elems_toString_holding [OF that(2,3)]
    by (simp add: coerce_field_def nullish_def)
qed

text \<open>
  An instance of C9: the body \<^verbatim>\<open>{"message": 5}\<close> in the holder, and in the router in
  front of the holder.
\<close>

theorem C9_coercion_witness:
  "snd (worker_fetch demo_runtime composed_env (api_post None (Some (JObj [(js ''message'', JNum (js ''5''))])))) =
     [DOFetch (js ''123e4567-e89b-42d3-a456-426614174000'') (holder_request (js ''5''))] \<and>
   status (fst (ChatRoom_fetch dev_env Map.empty (api_post None (Some (JObj [(js ''message'', JNum (js ''5''))]))))) \<noteq> 400"
proof -
  let ?req = "api_post None (Some (JObj [(js ''message'', JNum (js ''5''))]))"
  have post: "method ?req = js ''POST''"
    and body: "json_body ?req = Some (JObj [(js ''message'', JNum (js ''5''))])"
    and path: "pathname ?req = js ''/api/chat''"
    by (simp_all add: api_post_def)
  have ne: "js ''5'' \<noteq> []" by (simp add: js_def)
  have behind: "\<forall>name r. (\<exists>err. CHATROOMS composed_env name r = StubThrows err) \<or>
      CHATROOMS composed_env name r = holder_stub (\<lambda>b. []) dev_env (\<lambda>name. Map.empty) name r"
    by (simp add: composed_env_def)
  note c9 = C9_coercion [OF post body, where henv = dev_env and st = Map.empty and env = composed_env
      and rt = demo_runtime and render = "\<lambda>b. []" and stores = "\<lambda>name. Map.empty"]
  from c9 have "(status (fst (ChatRoom_fetch dev_env Map.empty ?req)) = 400) =
                  (coerce_field (JObj [(js ''message'', JNum (js ''5''))]) (js ''message'') = Inr [])"
    by (rule conjunct1)
  then have holder: "status (fst (ChatRoom_fetch dev_env Map.empty ?req)) \<noteq> 400"
    using ne by (simp add: coerce_five)
  from c9 path behind demo_session [of "Some (JObj [(js ''message'', JNum (js ''5''))])"] coerce_five ne
  have "snd (worker_fetch demo_runtime composed_env ?req) =
          [DOFetch (js ''123e4567-e89b-42d3-a456-426614174000'') (holder_request (js ''5''))]"
    by blast
  with holder show ?thesis by blast
qed

text \<open>
  Claim C9 as it is written says that no message that is not a string is rejected as a
  type error. The message \<^verbatim>\<open>{"toString": 1}\<close> is: \<^verbatim>\<open>toString\<close> is then the number 1,
  calling it throws a TypeError, and the holder answers 500.
\<close>

theorem C9_toString_property_counterexample:
  "coerce_field (JObj [(js ''message'', JObj [(js ''toString'', JNum (js ''1''))])]) (js ''message'') =
     Inl TypeError \<and>
   ChatRoom_try dev_env Map.empty
     (chat_post (JObj [(js ''message'', JObj [(js ''toString'', JNum (js ''1''))])])) = Inl (TypeError, []) \<and>
   status (fst (ChatRoom_fetch dev_env Map.empty
     (chat_post (JObj [(js ''message'', JObj [(js ''toString'', JNum (js ''1''))])])))) = 500"
proof -
  have thrown: "coerce_field (JObj [(js ''message'', JObj [(js ''toString'', JNum (js ''1''))])]) (js ''message'') =
                  Inl TypeError"
    by (simp add: coerce_field_def nullish_def)
  have holder: "ChatRoom_try dev_env Map.empty
     (chat_post (JObj [(js ''message'', JObj [(js ''toString'', JNum (js ''1''))])])) = Inl (TypeError, [])"
    by (simp add: ChatRoom_try_def chat_post_def thrown)
  from thrown holder show ?thesis
    by (simp add: ChatRoom_fetch_def json_response_def)
qed


section \<open>The cookie round trip\<close>

lemma unat_hex_digit:
  "d < 16 \<Longrightarrow> unat (hex_digit d) = (if d < 10 then 0x30 + d else 0x37 + d)"
  by (simp add: hex_digit_def unat_word_ariths unat_of_nat)

lemma hex_value_hex_digit: "d < 16 \<Longrightarrow> hex_value (hex_digit d) = Some d"
  unfolding hex_value_def
  by (simp add: word_le_nat_alt unat_hex_digit)

lemma parse_escape:
  "b < 256 \<Longrightarrow> ParseHexOctet (hex_digit (b div 16)) (hex_digit (b mod 16)) = Some b"
  by (simp add: ParseHexOctet_def hex_value_hex_digit div_less_iff_less_mult)

lemma unescaped_hex_digit: "d < 16 \<Longrightarrow> unescaped (hex_digit d)"
  unfolding unescaped_def
  by (simp add: word_le_nat_alt unat_hex_digit word_unat_eq_iff)

lemma unescaped_not_percent: "unescaped c \<Longrightarrow> c \<noteq> 0x25"
  by (auto simp: unescaped_def)

lemma continuation_escape:
  "b < 256 \<Longrightarrow> continuation_octets (Suc j) (escape_octet b @ r) =
     (case continuation_octets j r of None \<Rightarrow> None | Some (bs, r') \<Rightarrow> Some (b # bs, r'))"
  by (simp add: escape_octet_def parse_escape)

lemma Decode_escape:
  "b < 256 \<Longrightarrow> Decode (escape_octet b @ r) =
     (let n = leading_ones b in
      if n = 0 then (case Decode r of Inl e \<Rightarrow> Inl e | Inr t \<Rightarrow> Inr (of_nat b # t))
      else if n = 1 \<or> n > 4 then Inl URIError
      else (case continuation_octets (n - 1) r of
              None \<Rightarrow> Inl URIError
            | Some (bs, rest') \<Rightarrow>
               (case utf8_value (b # bs) of
                  None \<Rightarrow> Inl URIError
                | Some v \<Rightarrow>
                   (case Decode rest' of
                      Inl e \<Rightarrow> Inl e
                    | Inr t \<Rightarrow> Inr (UTF16EncodeCodePoint v @ t)))))"
  by (simp add: escape_octet_def parse_escape)

lemma Decode_utf8_1:
  assumes "cp < 0x80"
  shows "Decode (concat (map escape_octet (utf8 cp)) @ r) =
     (case Decode r of Inl e \<Rightarrow> Inl e | Inr t \<Rightarrow> Inr (UTF16EncodeCodePoint cp @ t))"
  using assms
  by (simp add: utf8_def Decode_escape leading_ones_def UTF16EncodeCodePoint_def split: sum.splits)

lemma Decode_utf8_2:
  assumes "0x80 \<le> cp" "cp < 0x800"
  shows "Decode (concat (map escape_octet (utf8 cp)) @ r) =
     (case Decode r of Inl e \<Rightarrow> Inl e | Inr t \<Rightarrow> Inr (UTF16EncodeCodePoint cp @ t))"
proof -
  have b0: "0xC0 + cp div 0x40 < 256" "0xC0 \<le> 0xC0 + cp div 0x40" "0xC0 + cp div 0x40 < 0xE0"
    using assms by simp_all
  have b1: "0x80 + cp mod 0x40 < 256" by simp
  have l: "leading_ones (0xC0 + cp div 0x40) = 2"
    using b0 by (simp add: leading_ones_def)
  have v: "utf8_value [0xC0 + cp div 0x40, 0x80 + cp mod 0x40] = Some cp"
    using assms by (simp add: is_cont_def)
  show ?thesis
    using assms
    by (simp add: utf8_def Decode_escape [OF b0(1)] l continuation_escape [OF b1] v
          del: utf8_value.simps)
qed

lemma div64_64: "(cp::nat) div 0x40 div 0x40 = cp div 0x1000"
  by (simp add: div_mult2_eq [symmetric])

lemma div64_64_64: "(cp::nat) div 0x40 div 0x40 div 0x40 = cp div 0x40000"
  by (simp add: div_mult2_eq [symmetric])

lemma recompose3: "cp div 0x1000 * 0x1000 + cp div 0x40 mod 0x40 * 0x40 + cp mod 0x40 = (cp::nat)"
proof -
  let ?a = "cp div 0x40"
  have "?a div 0x40 * 0x40 + ?a mod 0x40 = ?a" by (rule div_mult_mod_eq)
  then have "?a * 0x40 = cp div 0x1000 * 0x1000 + ?a mod 0x40 * 0x40"
    unfolding div64_64 by simp
  moreover have "?a * 0x40 + cp mod 0x40 = cp" by (rule div_mult_mod_eq)
  ultimately show ?thesis by simp
qed

lemma recompose4:
  "cp div 0x40000 * 0x40000 + cp div 0x1000 mod 0x40 * 0x1000 + cp div 0x40 mod 0x40 * 0x40 +
     cp mod 0x40 = (cp::nat)"
proof -
  let ?a = "cp div 0x1000"
  have "?a div 0x40 * 0x40 + ?a mod 0x40 = ?a" by (rule div_mult_mod_eq)
  moreover have "?a div 0x40 = cp div 0x40000"
    using div64_64_64 [of cp] by (simp add: div64_64)
  ultimately have "?a * 0x1000 = cp div 0x40000 * 0x40000 + ?a mod 0x40 * 0x1000"
    by simp
  with recompose3 [of cp] show ?thesis by simp
qed

lemma continuation_two:
  "b1 < 256 \<Longrightarrow> b2 < 256 \<Longrightarrow>
     continuation_octets 2 (escape_octet b1 @ escape_octet b2 @ r) = Some ([b1, b2], r)"
  by (simp add: numeral_2_eq_2 continuation_escape)

lemma continuation_three:
  "b1 < 256 \<Longrightarrow> b2 < 256 \<Longrightarrow> b3 < 256 \<Longrightarrow>
     continuation_octets 3 (escape_octet b1 @ escape_octet b2 @ escape_octet b3 @ r) =
       Some ([b1, b2, b3], r)"
  by (simp add: numeral_3_eq_3 continuation_escape)

lemma Decode_utf8_3:
  assumes "0x800 \<le> cp" "cp < 0x10000" "\<not> (0xD800 \<le> cp \<and> cp \<le> 0xDFFF)"
  shows "Decode (concat (map escape_octet (utf8 cp)) @ r) =
     (case Decode r of Inl e \<Rightarrow> Inl e | Inr t \<Rightarrow> Inr (UTF16EncodeCodePoint cp @ t))"
proof -
  have b0: "0xE0 + cp div 0x1000 < 256" "0xE0 \<le> 0xE0 + cp div 0x1000" "0xE0 + cp div 0x1000 < 0xF0"
    using assms by simp_all
  have b1: "0x80 + cp div 0x40 mod 0x40 < 256" and b2: "0x80 + cp mod 0x40 < 256" by simp_all
  have l: "leading_ones (0xE0 + cp div 0x1000) = 3"
    using b0 by (simp add: leading_ones_def)
  have v: "utf8_value [0xE0 + cp div 0x1000, 0x80 + cp div 0x40 mod 0x40, 0x80 + cp mod 0x40] = Some cp"
    using assms by (simp add: is_cont_def recompose3)
  show ?thesis
    using assms
    by (simp add: utf8_def Decode_escape [OF b0(1)] l continuation_two [OF b1 b2] v
          del: utf8_value.simps)
qed

lemma Decode_utf8_4:
  assumes "0x10000 \<le> cp" "cp < 0x110000"
  shows "Decode (concat (map escape_octet (utf8 cp)) @ r) =
     (case Decode r of Inl e \<Rightarrow> Inl e | Inr t \<Rightarrow> Inr (UTF16EncodeCodePoint cp @ t))"
proof -
  have b0: "0xF0 + cp div 0x40000 < 256" "0xF0 \<le> 0xF0 + cp div 0x40000" "0xF0 + cp div 0x40000 < 0xF8"
    using assms by simp_all
  have b1: "0x80 + cp div 0x1000 mod 0x40 < 256" and b2: "0x80 + cp div 0x40 mod 0x40 < 256"
    and b3: "0x80 + cp mod 0x40 < 256" by simp_all
  have l: "leading_ones (0xF0 + cp div 0x40000) = 4"
    using b0 by (simp add: leading_ones_def)
  have v: "utf8_value [0xF0 + cp div 0x40000, 0x80 + cp div 0x1000 mod 0x40,
                  0x80 + cp div 0x40 mod 0x40, 0x80 + cp mod 0x40] = Some cp"
    using assms by (simp add: is_cont_def recompose4)
  show ?thesis
    using assms
    by (simp add: utf8_def Decode_escape [OF b0(1)] l continuation_three [OF b1 b2 b3] v
          del: utf8_value.simps)
qed

lemma Decode_utf8:
  assumes "scalar cp"
  shows "Decode (concat (map escape_octet (utf8 cp)) @ r) =
     (case Decode r of Inl e \<Rightarrow> Inl e | Inr t \<Rightarrow> Inr (UTF16EncodeCodePoint cp @ t))"
proof -
  have lt: "cp < 0x110000" and ns: "\<not> (0xD800 \<le> cp \<and> cp \<le> 0xDFFF)"
    using assms by (simp_all add: scalar_def)
  show ?thesis
  proof (cases "cp < 0x80")
    case True then show ?thesis by (rule Decode_utf8_1)
  next
    case a: False
    show ?thesis
    proof (cases "cp < 0x800")
      case True with a show ?thesis by (intro Decode_utf8_2) simp_all
    next
      case b: False
      show ?thesis
      proof (cases "cp < 0x10000")
        case True with b ns show ?thesis by (intro Decode_utf8_3) simp_all
      next
        case False with lt show ?thesis by (intro Decode_utf8_4) simp_all
      qed
    qed
  qed
qed

lemma CodePointAt_single:
  assumes "\<not> is_lead c" "\<not> is_trail c"
  shows "scalar (unat c)" and "UTF16EncodeCodePoint (unat c) = [c]"
proof -
  have lt: "unat c < 0x10000" using unsigned_less [of c, where 'a = nat] by simp
  show "scalar (unat c)"
    using assms lt by (auto simp: scalar_def is_lead_def is_trail_def word_le_nat_alt)
  show "UTF16EncodeCodePoint (unat c) = [c]"
    using lt by (simp add: UTF16EncodeCodePoint_def)
qed

lemma CodePointAt_pair:
  assumes "is_lead c" "is_trail d"
  defines "cp \<equiv> (unat c - 0xD800) * 0x400 + (unat d - 0xDC00) + 0x10000"
  shows "scalar cp" and "UTF16EncodeCodePoint cp = [c, d]"
proof -
  have c: "0xD800 \<le> unat c" "unat c \<le> 0xDBFF"
    using assms(1) by (simp_all add: is_lead_def word_le_nat_alt)
  have d: "0xDC00 \<le> unat d" "unat d \<le> 0xDFFF"
    using assms(2) by (simp_all add: is_trail_def word_le_nat_alt)
  define a where "a = unat c - 0xD800"
  define b where "b = unat d - 0xDC00"
  have a: "a \<le> 0x3FF" "a + 0xD800 = unat c" using c by (simp_all add: a_def)
  have b: "b < 0x400" "b + 0xDC00 = unat d" using d by (simp_all add: b_def)
  have cp: "cp = a * 0x400 + b + 0x10000" by (simp add: cp_def a_def b_def)
  have "a * 0x400 \<le> 0x3FF * 0x400" using a(1) by (rule mult_le_mono1)
  then show "scalar cp" using b(1) by (simp add: scalar_def cp)
  have "(cp - 0x10000) div 0x400 = a" "(cp - 0x10000) mod 0x400 = b"
    using b(1) by (simp_all add: cp)
  then show "UTF16EncodeCodePoint cp = [c, d]"
    using a(2) b(2) by (simp add: UTF16EncodeCodePoint_def cp)
qed

lemma CodePointAt_paired:
  assumes "CodePointAt c cs = (cp, count, False)"
  shows "scalar cp \<and> UTF16EncodeCodePoint cp @ drop (count - 1) cs = c # cs"
proof (cases "\<not> is_lead c \<and> \<not> is_trail c")
  case True
  with assms have "cp = unat c" "count = 1" by simp_all
  with True CodePointAt_single [of c] show ?thesis by simp
next
  case False
  with assms have lead: "is_lead c" and ne: "cs \<noteq> []" and trail: "is_trail (hd cs)"
    and cp: "cp = (unat c - 0xD800) * 0x400 + (unat (hd cs) - 0xDC00) + 0x10000"
    and count: "count = 2"
    by (auto split: if_splits)
  from ne obtain d ds where cs: "cs = d # ds" by (cases cs) auto
  with CodePointAt_pair [OF lead, of d] trail cp count show ?thesis by simp
qed

text \<open>
  \<^verbatim>\<open>decodeURIComponent\<close> inverts \<^verbatim>\<open>encodeURIComponent\<close> on every string that the
  latter accepts.
\<close>

lemma Decode_Encode: "Encode s = Inr e \<Longrightarrow> Decode e = Inr s"
proof (induction s arbitrary: e rule: Encode.induct)
  case 1
  then show ?case by simp
next
  case (2 c cs)
  show ?case
  proof (cases "unescaped c")
    case True
    with "2.prems" obtain r where r: "Encode cs = Inr r" and e: "e = c # r"
      by (auto split: sum.splits)
    from "2.IH"(1) [OF True r] have "Decode r = Inr cs" .
    with unescaped_not_percent [OF True] show ?thesis by (simp add: e)
  next
    case False
    obtain cp count unpaired where cpa: "CodePointAt c cs = (cp, count, unpaired)"
      by (cases "CodePointAt c cs") auto
    with False "2.prems" obtain r where up: "\<not> unpaired"
      and r: "Encode (drop (count - 1) cs) = Inr r"
      and e: "e = concat (map escape_octet (utf8 cp)) @ r"
      by (auto simp del: CodePointAt.simps split: sum.splits if_splits)
    from "2.IH"(2) [OF False cpa [symmetric] refl up r]
    have dec: "Decode r = Inr (drop (count - 1) cs)" .
    from cpa up have "CodePointAt c cs = (cp, count, False)" by simp
    from CodePointAt_paired [OF this]
    have sc: "scalar cp" and rejoin: "UTF16EncodeCodePoint cp @ drop (count - 1) cs = c # cs"
      by simp_all
    have "Decode e = Inr (UTF16EncodeCodePoint cp @ drop (count - 1) cs)"
      unfolding e by (simp only: Decode_utf8 [OF sc] dec sum.case)
    then show ?thesis by (simp only: rejoin)
  qed
qed

lemma utf8_octets: "cp < 0x110000 \<Longrightarrow> \<forall>b \<in> set (utf8 cp). b < 256"
proof -
  assume lt: "cp < 0x110000"
  have low: "x mod 0x40 < 0x80" for x :: nat
    by (rule less_trans [OF mod_less_divisor]) simp_all
  from lt show ?thesis
    by (simp add: utf8_def low div_less_iff_less_mult)
qed

lemma escape_octet_chars:
  "b < 256 \<Longrightarrow> \<forall>x \<in> set (escape_octet b). unescaped x \<or> x = 0x25"
  by (simp add: escape_octet_def unescaped_hex_digit div_less_iff_less_mult)

lemma escaped_chars:
  "\<forall>b \<in> set bs. b < 256 \<Longrightarrow> \<forall>x \<in> set (concat (map escape_octet bs)). unescaped x \<or> x = 0x25"
  using escape_octet_chars by fastforce

lemma Encode_chars: "Encode s = Inr e \<Longrightarrow> \<forall>x \<in> set e. unescaped x \<or> x = 0x25"
proof (induction s arbitrary: e rule: Encode.induct)
  case 1
  then show ?case by simp
next
  case (2 c cs)
  show ?case
  proof (cases "unescaped c")
    case True
    with "2.prems" obtain r where r: "Encode cs = Inr r" and e: "e = c # r"
      by (auto split: sum.splits)
    from "2.IH"(1) [OF True r] True show ?thesis by (simp add: e)
  next
    case False
    obtain cp count unpaired where cpa: "CodePointAt c cs = (cp, count, unpaired)"
      by (cases "CodePointAt c cs") auto
    with False "2.prems" obtain r where up: "\<not> unpaired"
      and r: "Encode (drop (count - 1) cs) = Inr r"
      and e: "e = concat (map escape_octet (utf8 cp)) @ r"
      by (auto simp del: CodePointAt.simps split: sum.splits if_splits)
    from cpa up have "CodePointAt c cs = (cp, count, False)" by simp
    from CodePointAt_paired [OF this] have "cp < 0x110000" by (simp add: scalar_def)
    from escaped_chars [OF utf8_octets [OF this]] "2.IH"(2) [OF False cpa [symmetric] refl up r]
    show ?thesis by (auto simp: e)
  qed
qed

lemma split_nonempty: "split sep s \<noteq> []"
  by (induction s) (auto split: list.splits)

lemma split_no_sep: "sep \<notin> set a \<Longrightarrow> split sep a = [a]"
  by (induction a) auto

lemma split_append: "sep \<notin> set a \<Longrightarrow> split sep (a @ sep # b) = a # split sep b"
  by (induction a) auto

lemma join_split: "join [sep] (split sep s) = s"
proof (induction s)
  case Nil
  then show ?case by simp
next
  case (Cons c cs)
  obtain p ps where ps: "split sep cs = p # ps"
    using split_nonempty [of sep cs] by (cases "split sep cs") auto
  with Cons show ?case by (cases ps) auto
qed

lemma dropWhile_ws_keep: "\<forall>x \<in> set ws. is_ws x \<Longrightarrow> dropWhile is_ws (ws @ p) = dropWhile is_ws p"
  by (induction ws) auto

lemma trim_padded:
  assumes "\<forall>x \<in> set (ws1 @ ws2). is_ws x" "p \<noteq> []" "\<not> is_ws (hd p)" "\<not> is_ws (last p)"
  shows "trim (ws1 @ p @ ws2) = p"
proof -
  from assms(2,3) have front: "dropWhile is_ws p = p" by (cases p) auto
  from assms(2,4) have rear: "dropWhile is_ws (rev p) = rev p" by (cases p rule: rev_cases) auto
  have "dropWhile is_ws (ws1 @ p @ ws2) = p @ ws2"
    using assms(1,2,3) by (cases p) (auto simp: dropWhile_ws_keep)
  moreover have "dropWhile is_ws (rev ws2 @ rev p) = rev p"
    using assms(1) rear by (simp add: dropWhile_ws_keep)
  ultimately show ?thesis by (simp add: trim_def)
qed

lemma getCookie_parts_skip:
  "\<forall>p \<in> set pre. hd (split 0x3D (trim p)) \<noteq> name \<Longrightarrow>
     getCookie_parts (pre @ rest) name = getCookie_parts rest name"
  by (induction pre) (auto split: list.splits)

lemma unescaped_plain:
  "unescaped x \<or> x = 0x25 \<Longrightarrow> x \<noteq> 0x3B \<and> x \<noteq> 0x3D \<and> \<not> is_ws x"
  by (auto simp: unescaped_def is_ws_def word_le_nat_alt)

lemma session_pair:
  assumes "makeSessionCookie s secure = Inr c"
  obtains enc where "Encode s = Inr enc" "hd (split 0x3B c) = js ''session='' @ enc"
proof -
  from assms obtain enc where enc: "Encode s = Inr enc"
    and c: "c = js ''session='' @ enc @ js ''; Path=/; HttpOnly; SameSite=Lax; Max-Age=2592000'' @
               (if secure then js ''; Secure'' else [])"
    by (auto simp: makeSessionCookie_def encodeURIComponent_def split: sum.splits)
  have plain: "0x3B \<notin> set (js ''session='' @ enc)"
    using Encode_chars [OF enc] unescaped_plain by (auto simp: js_def)
  have "c = (js ''session='' @ enc) @ 0x3B # (js '' Path=/; HttpOnly; SameSite=Lax; Max-Age=2592000'' @
               (if secure then js ''; Secure'' else []))"
    unfolding c by (simp add: js_def)
  then have "split 0x3B c = (js ''session='' @ enc) #
               split 0x3B (js '' Path=/; HttpOnly; SameSite=Lax; Max-Age=2592000'' @
               (if secure then js ''; Secure'' else []))"
    using split_append [OF plain] by simp
  then have "hd (split 0x3B c) = js ''session='' @ enc" by simp
  with enc show ?thesis by (rule that)
qed

lemma pair_ends:
  assumes "\<forall>x \<in> set enc. unescaped x \<or> x = 0x25"
  shows "js ''session='' @ enc \<noteq> []" "\<not> is_ws (hd (js ''session='' @ enc))"
    "\<not> is_ws (last (js ''session='' @ enc))"
proof -
  show "js ''session='' @ enc \<noteq> []" by (simp add: js_def)
  show "\<not> is_ws (hd (js ''session='' @ enc))" by (simp add: js_def is_ws_def)
  show "\<not> is_ws (last (js ''session='' @ enc))"
  proof (cases "enc = []")
    case True
    then show ?thesis by (simp add: js_def is_ws_def)
  next
    case False
    then have "last enc \<in> set enc" by simp
    with assms unescaped_plain have "\<not> is_ws (last enc)" by blast
    with False show ?thesis by simp
  qed
qed

lemma split_pair: "split 0x3D (js ''session='' @ enc) = js ''session'' # split 0x3D enc"
proof -
  have "0x3D \<notin> set (js ''session'')" by (simp add: js_def)
  from split_append [OF this, of enc] show ?thesis by (simp add: js_def)
qed

text \<open>
  The value \<^verbatim>\<open>getCookie\<close> returns: the decoded text after the first \<^verbatim>\<open>=\<close> of the first
  part named \<^verbatim>\<open>session\<close>.
\<close>

lemma getCookie_value:
  assumes "cookie req = Some header"
    and "split 0x3B header = pre @ [part] @ post"
    and "\<forall>p \<in> set pre. hd (split 0x3D (trim p)) \<noteq> js ''session''"
    and "trim part = js ''session='' @ v"
  shows "getCookie req (js ''session'') =
           (case decodeURIComponent v of Inl e \<Rightarrow> Inl e | Inr t \<Rightarrow> Inr (Some t))"
proof -
  have header: "header \<noteq> []"
  proof
    assume "header = []"
    with assms(2) have "pre @ [part] @ post = [[]]" by simp
    then have "part = []" by (cases pre) (auto simp: Cons_eq_append_conv)
    with assms(4) show False by (simp add: trim_def js_def)
  qed
  have "getCookie req (js ''session'') = getCookie_parts ([part] @ post) (js ''session'')"
    using assms(1,2) header getCookie_parts_skip [OF assms(3)] by (simp add: getCookie_def)
  also have "\<dots> = (case decodeURIComponent v of Inl e \<Rightarrow> Inl e | Inr t \<Rightarrow> Inr (Some t))"
  proof -
    have parts: "split 0x3D (trim part) = js ''session'' # split 0x3D v"
      by (simp only: assms(4) split_pair)
    have rejoined: "join (js ''='') (split 0x3D v) = v"
      using join_split [of "0x3D" v] by (simp add: js_def)
    show ?thesis
      by (simp only: append.simps getCookie_parts.simps parts list.case rejoined) simp
  qed
  finally show ?thesis .
qed

text \<open>
  Claim C10, as amended. For every string \<open>s\<close> for which \<^verbatim>\<open>makeSessionCookie(s, secure)\<close>
  returns a cookie \<open>c\<close> (it throws when \<open>s\<close> holds an unpaired surrogate), and every
  request whose \<^verbatim>\<open>Cookie\<close> header has the name/value pair of \<open>c\<close> (its text before the
  first semicolon) among its parts, whitespace around it or not, with no part named
  \<^verbatim>\<open>session\<close> before it: \<^verbatim>\<open>getCookie(request, "session")\<close> returns exactly \<open>s\<close>. And
  for every header whose first part named \<^verbatim>\<open>session\<close> is \<^verbatim>\<open>session=\<close> followed by
  \<open>v\<close>, whatever further \<^verbatim>\<open>=\<close> the value \<open>v\<close> holds, \<^verbatim>\<open>getCookie\<close> decodes the whole
  of \<open>v\<close>: the pieces of the split are joined again.
\<close>

theorem C10_cookie_roundtrip:
  assumes "makeSessionCookie s secure = Inr c"
    and "cookie req = Some header"
    and "split 0x3B header = pre @ [ws1 @ hd (split 0x3B c) @ ws2] @ post"
    and "\<forall>p \<in> set pre. hd (split 0x3D (trim p)) \<noteq> js ''session''"
    and "\<forall>x \<in> set (ws1 @ ws2). is_ws x"
  shows "getCookie req (js ''session'') = Inr (Some s) \<and>
         (\<forall>r h before part after v.
            cookie r = Some h \<longrightarrow> split 0x3B h = before @ [part] @ after \<longrightarrow>
            (\<forall>p \<in> set before. hd (split 0x3D (trim p)) \<noteq> js ''session'') \<longrightarrow>
            trim part = js ''session='' @ v \<longrightarrow>
            getCookie r (js ''session'') =
              (case decodeURIComponent v of Inl e \<Rightarrow> Inl e | Inr t \<Rightarrow> Inr (Some t)))"
proof
  from assms(1) obtain enc where enc: "Encode s = Inr enc"
    and pair: "hd (split 0x3B c) = js ''session='' @ enc"
    by (rule session_pair)
  note ends = pair_ends [OF Encode_chars [OF enc]]
  have "trim (ws1 @ hd (split 0x3B c) @ ws2) = js ''session='' @ enc"
    unfolding pair by (rule trim_padded [OF assms(5) ends])
  from getCookie_value [OF assms(2,3,4) this]
  show "getCookie req (js ''session'') = Inr (Some s)"
    by (simp add: decodeURIComponent_def Decode_Encode [OF enc])
  show "\<forall>r h before part after v.
            cookie r = Some h \<longrightarrow> split 0x3B h = before @ [part] @ after \<longrightarrow>
            (\<forall>p \<in> set before. hd (split 0x3D (trim p)) \<noteq> js ''session'') \<longrightarrow>
            trim part = js ''session='' @ v \<longrightarrow>
            getCookie r (js ''session'') =
              (case decodeURIComponent v of Inl e \<Rightarrow> Inl e | Inr t \<Rightarrow> Inr (Some t))"
    using getCookie_value by blast
qed

lemma euro_cookie:
  "makeSessionCookie (js ''a='' @ [0x20AC]) True =
     Inr (js ''session=a%3D%E2%82%AC; Path=/; HttpOnly; SameSite=Lax; Max-Age=2592000; Secure'')"
  by (simp add: makeSessionCookie_def encodeURIComponent_def js_def unescaped_def is_lead_def
      is_trail_def utf8_def escape_octet_def hex_digit_def)

lemma euro_header:
  "split 0x3B (js ''theme=dark; session=a%3D%E2%82%AC; lang=en'') =
     [js ''theme=dark''] @
     [js '' '' @ hd (split 0x3B (js ''session=a%3D%E2%82%AC; Path=/; HttpOnly; SameSite=Lax; Max-Age=2592000; Secure'')) @ []] @
     [js '' lang=en'']"
  by (simp add: js_def)

lemma equals_header:
  "split 0x3B (js ''theme=dark; session=a=b=c'') = [js ''theme=dark''] @ [js '' session=a=b=c''] @ []"
  by (simp add: js_def)

lemma equals_part: "trim (js '' session=a=b=c'') = js ''session='' @ js ''a=b=c''"
  by (simp add: js_def trim_def is_ws_def)

lemma equals_value: "decodeURIComponent (js ''a=b=c'') = Inr (js ''a=b=c'')"
  by (simp add: decodeURIComponent_def js_def)

text \<open>
  Instances of C10: the identifier \<^verbatim>\<open>a=\<close> followed by U+20AC, in a header with two
  other cookies around the session cookie; and the value \<^verbatim>\<open>a=b=c\<close>, read back whole.
\<close>

theorem C10_cookie_roundtrip_witness:
  "makeSessionCookie (js ''a='' @ [0x20AC]) True =
     Inr (js ''session=a%3D%E2%82%AC; Path=/; HttpOnly; SameSite=Lax; Max-Age=2592000; Secure'') \<and>
   getCookie (api_post (Some (js ''theme=dark; session=a%3D%E2%82%AC; lang=en'')) None) (js ''session'') =
     Inr (Some (js ''a='' @ [0x20AC])) \<and>
   getCookie (api_post (Some (js ''theme=dark; session=a=b=c'')) None) (js ''session'') =
     Inr (Some (js ''a=b=c''))"
proof -
  have hdr: "cookie (api_post (Some (js ''theme=dark; session=a%3D%E2%82%AC; lang=en'')) None) =
       Some (js ''theme=dark; session=a%3D%E2%82%AC; lang=en'')"
    by (simp add: api_post_def)
  have hdr': "cookie (api_post (Some (js ''theme=dark; session=a=b=c'')) None) =
       Some (js ''theme=dark; session=a=b=c'')"
    by (simp add: api_post_def)
  have others: "\<forall>p \<in> set [js ''theme=dark'']. hd (split 0x3D (trim p)) \<noteq> js ''session''"
    by (simp add: js_def trim_def is_ws_def)
  have pad: "\<forall>x \<in> set (js '' '' @ []). is_ws x"
    by (simp add: js_def is_ws_def)
  note c10 = C10_cookie_roundtrip [OF euro_cookie hdr euro_header others pad]
  from c10 have first: "getCookie (api_post (Some (js ''theme=dark; session=a%3D%E2%82%AC; lang=en'')) None)
      (js ''session'') = Inr (Some (js ''a='' @ [0x20AC]))"
    by (rule conjunct1)
  from c10 hdr' equals_header others equals_part
  have "getCookie (api_post (Some (js ''theme=dark; session=a=b=c'')) None) (js ''session'') =
          (case decodeURIComponent (js ''a=b=c'') of Inl e \<Rightarrow> Inl e | Inr t \<Rightarrow> Inr (Some t))"
    by blast
  then have second: "getCookie (api_post (Some (js ''theme=dark; session=a=b=c'')) None) (js ''session'') =
      Inr (Some (js ''a=b=c''))"
    by (simp add: equals_value)
  from euro_cookie first second show ?thesis by blast
qed

text \<open>
  Claim C10 as it is written asks nothing of the other parts of the header. The header
  \<^verbatim>\<open>session=zzz; session=abc\<close> contains the pair of \<^verbatim>\<open>makeSessionCookie("abc", true)\<close>,
  and \<^verbatim>\<open>getCookie\<close> returns \<^verbatim>\<open>zzz\<close>: the first part named \<^verbatim>\<open>session\<close> decides.
\<close>

theorem C10_earlier_session_counterexample:
  "makeSessionCookie (js ''abc'') True =
     Inr (js ''session=abc; Path=/; HttpOnly; SameSite=Lax; Max-Age=2592000; Secure'') \<and>
   split 0x3B (js ''session=zzz; session=abc'') = [js ''session=zzz'', js '' session=abc''] \<and>
   getCookie (api_post (Some (js ''session=zzz; session=abc'')) None) (js ''session'') =
     Inr (Some (js ''zzz'')) \<and>
   js ''zzz'' \<noteq> js ''abc''"
proof (intro conjI)
  show "makeSessionCookie (js ''abc'') True =
     Inr (js ''session=abc; Path=/; HttpOnly; SameSite=Lax; Max-Age=2592000; Secure'')"
    by (simp add: makeSessionCookie_def encodeURIComponent_def js_def unescaped_def)
  show parts: "split 0x3B (js ''session=zzz; session=abc'') = [js ''session=zzz'', js '' session=abc'']"
    by (simp add: js_def)
  have "getCookie (api_post (Some (js ''session=zzz; session=abc'')) None) (js ''session'') =
          getCookie_parts [js ''session=zzz'', js '' session=abc''] (js ''session'')"
    by (simp add: getCookie_def api_post_def parts) (simp add: js_def)
  also have "\<dots> = Inr (Some (js ''zzz''))"
    by (simp add: js_def trim_def is_ws_def decodeURIComponent_def)
  finally show "getCookie (api_post (Some (js ''session=zzz; session=abc'')) None) (js ''session'') =
     Inr (Some (js ''zzz''))" .
  show "js ''zzz'' \<noteq> js ''abc''" by (simp add: js_def)
qed

end
